theory Spec2Isabelle
  imports Complex_Main
begin

section \<open>Floating-point values, series and Python errors\<close>

text \<open>
  The program computes on pandas series of 64-bit floats. A float is modelled by its four
  kinds of value: not-a-number, the two infinities, and a finite number. Finite numbers
  are idealised as reals (no rounding, no overflow); the special values follow IEEE 754,
  which is what decides where missing markers appear and where they are dropped.
\<close>

datatype fl = NaN | NInf | PInf | Fin real

datatype error = ValueError string | TypeError string | LinAlgError string

text \<open>\<open>pd.isna\<close> on a float: only not-a-number is missing, an infinity is not.\<close>

definition isna :: "fl \<Rightarrow> bool" where
  "isna v = (v = NaN)"

fun fneg :: "fl \<Rightarrow> fl" where
  "fneg NaN = NaN"
| "fneg NInf = PInf"
| "fneg PInf = NInf"
| "fneg (Fin a) = Fin (- a)"

fun fadd :: "fl \<Rightarrow> fl \<Rightarrow> fl" where
  "fadd NaN w = NaN"
| "fadd PInf w = (if w = NaN \<or> w = NInf then NaN else PInf)"
| "fadd NInf w = (if w = NaN \<or> w = PInf then NaN else NInf)"
| "fadd (Fin a) w = (case w of Fin b \<Rightarrow> Fin (a + b) | u \<Rightarrow> u)"

definition fsub :: "fl \<Rightarrow> fl \<Rightarrow> fl" where
  "fsub v w = fadd v (fneg w)"

fun fmul :: "fl \<Rightarrow> fl \<Rightarrow> fl" where
  "fmul NaN w = NaN"
| "fmul (Fin a) w =
     (case w of
        NaN \<Rightarrow> NaN
      | Fin b \<Rightarrow> Fin (a * b)
      | PInf \<Rightarrow> (if a = 0 then NaN else if 0 < a then PInf else NInf)
      | NInf \<Rightarrow> (if a = 0 then NaN else if 0 < a then NInf else PInf))"
| "fmul PInf w =
     (case w of
        NaN \<Rightarrow> NaN
      | Fin b \<Rightarrow> (if b = 0 then NaN else if 0 < b then PInf else NInf)
      | PInf \<Rightarrow> PInf
      | NInf \<Rightarrow> NInf)"
| "fmul NInf w =
     (case w of
        NaN \<Rightarrow> NaN
      | Fin b \<Rightarrow> (if b = 0 then NaN else if 0 < b then NInf else PInf)
      | PInf \<Rightarrow> NInf
      | NInf \<Rightarrow> PInf)"

text \<open>Division of a float by a count, as the mean does; \<open>0 / 0\<close> is not-a-number.\<close>

fun fdiv_count :: "fl \<Rightarrow> nat \<Rightarrow> fl" where
  "fdiv_count NaN n = NaN"
| "fdiv_count PInf n = PInf"
| "fdiv_count NInf n = NInf"
| "fdiv_count (Fin a) n = (if n = 0 then (if a = 0 then NaN else if 0 < a then PInf else NInf)
                           else Fin (a / real n))"

text \<open>
  \<open>np.log\<close>: the logarithm of a negative number is not-a-number and the logarithm of zero
  is minus infinity; numpy warns in both cases and does not raise.
\<close>

fun np_log :: "fl \<Rightarrow> fl" where
  "np_log NaN = NaN"
| "np_log NInf = NaN"
| "np_log PInf = PInf"
| "np_log (Fin a) = (if 0 < a then Fin (ln a) else if a = 0 then NInf else NaN)"

text \<open>
  A series is the list of its rows, index label first. The index of a price or return
  series is a UTC timestamp, counted here in seconds, so that observations off the
  hourly grid can be written down.
\<close>

type_synonym series = "(int \<times> fl) list"

definition hour :: int where
  "hour = 3600"

definition dropna :: "series \<Rightarrow> series" where
  "dropna s = filter (\<lambda>r. \<not> isna (snd r)) s"

text \<open>\<open>Series.sum()\<close> and \<open>Series.mean()\<close> skip missing values; the sum of nothing is 0.\<close>

definition series_sum :: "series \<Rightarrow> fl" where
  "series_sum s = foldl fadd (Fin 0) (map snd (dropna s))"

definition series_mean :: "series \<Rightarrow> fl" where
  "series_mean s = (if dropna s = [] then NaN
                    else fdiv_count (series_sum s) (length (dropna s)))"

section \<open>The window slicer\<close>

text \<open>
  \<open>pd.date_range(a, b, freq="h")\<close>: the timestamps \<open>a, a + 1h, ...\<close> that do not pass
  \<open>b\<close>; none when \<open>b\<close> is before \<open>a\<close>.
\<close>

definition date_range :: "int \<Rightarrow> int \<Rightarrow> int list" where
  "date_range a b =
     (if b < a then [] else map (\<lambda>i. a + int i * hour) [0..<nat ((b - a) div hour) + 1])"

text \<open>\<open>Series.reindex\<close> of a series with unique labels: a label it lacks gets NaN.\<close>

definition reindex :: "series \<Rightarrow> int list \<Rightarrow> series" where
  "reindex s idx = map (\<lambda>t. (t, case map_of s t of Some v \<Rightarrow> v | None \<Rightarrow> NaN)) idx"

text \<open>
  \<open>Series.asfreq("h")\<close>: an empty series stays empty; otherwise the series is reindexed
  onto the hourly grid from its earliest to its latest timestamp, which pandas refuses
  when the index has a duplicate label.
\<close>

definition asfreq_h :: "series \<Rightarrow> error + series" where
  "asfreq_h s =
     (if s = [] then Inr []
      else if \<not> distinct (map fst s)
        then Inl (ValueError ''cannot reindex on an axis with duplicate labels'')
      else Inr (reindex s (date_range (Min (set (map fst s))) (Max (set (map fst s))))))"

definition slice_window :: "series \<Rightarrow> int \<Rightarrow> int \<times> int \<Rightarrow> error + series" where
  "slice_window s t0 window =
     (case asfreq_h s of
        Inl e \<Rightarrow> Inl e
      | Inr s' \<Rightarrow>
          Inr (reindex s' (date_range (t0 + fst window * hour) (t0 + snd window * hour))))"

section \<open>The return transform\<close>

fun diff_from :: "fl \<Rightarrow> series \<Rightarrow> series" where
  "diff_from prev [] = []"
| "diff_from prev (r # s) = (fst r, fsub (snd r) prev) # diff_from (snd r) s"

text \<open>\<open>Series.diff()\<close>: each value minus the one before it; the first row has none.\<close>

definition series_diff :: "series \<Rightarrow> series" where
  "series_diff s = (case s of [] \<Rightarrow> [] | r # rest \<Rightarrow> (fst r, NaN) # diff_from (snd r) rest)"

definition to_returns :: "series \<Rightarrow> series" where
  "to_returns prices = dropna (series_diff (map (\<lambda>r. (fst r, np_log (snd r))) prices))"

section \<open>Cumulative sums\<close>

fun np_cumsum :: "fl \<Rightarrow> fl list \<Rightarrow> fl list" where
  "np_cumsum acc [] = []"
| "np_cumsum acc (v # vs) = fadd acc v # np_cumsum (fadd acc v) vs"

text \<open>
  \<open>Series.cumsum()\<close> with pandas' default \<open>skipna=True\<close>: missing values count as 0 in
  the running sum, and the result is missing exactly at the rows where the input is.
\<close>

definition series_cumsum :: "series \<Rightarrow> series" where
  "series_cumsum s =
     map2 (\<lambda>r c. (fst r, if isna (snd r) then NaN else c)) s
       (np_cumsum (Fin 0) (map (\<lambda>r. if isna (snd r) then Fin 0 else snd r) s))"

section \<open>The numpy routines the program calls\<close>

text \<open>
  The random generator, the percentile routine and the least-squares solver belong to
  numpy, not to this program; they are parameters of the model. A generator state is a
  number, and \<open>draw_integer g low high i\<close> is the \<open>i\<close>-th integer that a generator in state
  \<open>g\<close> draws from \<open>[low, high)\<close>. \<open>nanpercentile\<close> stands for
  \<open>np.nanpercentile(_, [2.5, 97.5])\<close> on a list that is not empty and yields the pair of
  percentiles (of the empty list numpy yields no pair but a single nan);
  \<open>lstsq\<close> stands for \<open>np.linalg.lstsq(X, y, rcond=None)[0]\<close> on a
  design matrix of two columns, given by its rows, and yields the two coefficients.
  The process holds the sources of randomness that are shared by everything running in
  it: the operating system's entropy and numpy's legacy global generator.
\<close>

record process =
  os_entropy :: nat
  legacy_global_rng :: nat

record numpy =
  seeded_generator :: "nat \<Rightarrow> nat"
  entropy_generator :: "nat \<Rightarrow> nat"
  draw_integer :: "nat \<Rightarrow> int \<Rightarrow> int \<Rightarrow> nat \<Rightarrow> int"
  nanpercentile :: "fl list \<Rightarrow> fl \<times> fl"
  lstsq :: "(fl \<times> fl) list \<Rightarrow> fl list \<Rightarrow> error + fl \<times> fl"

text \<open>
  \<open>np.random.default_rng(seed)\<close>: with a seed the generator is built from the seed alone
  (a negative seed is refused); without one it is built from fresh entropy.
\<close>

definition default_rng :: "numpy \<Rightarrow> process \<Rightarrow> int option \<Rightarrow> error + nat" where
  "default_rng np proc seed =
     (case seed of
        None \<Rightarrow> Inr (entropy_generator np (os_entropy proc))
      | Some k \<Rightarrow>
          if k < 0 then Inl (ValueError ''expected non-negative integer'')
          else Inr (seeded_generator np (nat k)))"

text \<open>\<open>rng.integers(low, high, size=n)\<close>: \<open>n\<close> integers of \<open>[low, high)\<close>.\<close>

definition rng_integers :: "numpy \<Rightarrow> nat \<Rightarrow> int \<Rightarrow> int \<Rightarrow> int \<Rightarrow> error + int list" where
  "rng_integers np g low high n =
     (if n < 0 then Inl (ValueError ''negative dimensions are not allowed'')
      else if high \<le> low then Inl (ValueError ''low >= high'')
      else Inr (map (draw_integer np g low high) [0..<nat n]))"

section \<open>The resampling confidence estimator\<close>

text \<open>Python's slice \<open>xs[a:b]\<close>: a negative bound counts from the end, both are clipped.\<close>

definition slice_bound :: "nat \<Rightarrow> int \<Rightarrow> nat" where
  "slice_bound n i = (if i < 0 then nat (max 0 (int n + i)) else min (nat i) n)"

definition iloc_slice :: "'a list \<Rightarrow> int \<Rightarrow> int \<Rightarrow> 'a list" where
  "iloc_slice xs a b =
     take (slice_bound (length xs) b - slice_bound (length xs) a)
       (drop (slice_bound (length xs) a) xs)"

text \<open>
  The last line of the estimator unpacks the result of \<open>np.nanpercentile\<close> into
  \<open>low, high\<close>. Of an empty list of sums the result is a single nan, and unpacking it
  raises a TypeError.
\<close>

definition unpack_percentiles :: "numpy \<Rightarrow> fl list \<Rightarrow> error + fl \<times> fl" where
  "unpack_percentiles np window_sums =
     (if window_sums = [] then Inl (TypeError ''cannot unpack non-iterable float object'')
      else Inr (nanpercentile np window_sums))"

definition bootstrap_car_ci ::
  "numpy \<Rightarrow> process \<Rightarrow> series \<Rightarrow> int \<Rightarrow> int \<Rightarrow> int \<Rightarrow> error + fl \<times> fl" where
  "bootstrap_car_ci np proc returns window_len n_iter random_state =
     (case default_rng np proc (Some random_state) of
        Inl e \<Rightarrow> Inl e
      | Inr rng \<Rightarrow>
          if int (length returns) < window_len + 10 then Inr (NaN, NaN)
          else
            (case rng_integers np rng 0 (int (length returns) - window_len) n_iter of
               Inl e \<Rightarrow> Inl e
             | Inr starts \<Rightarrow>
                 unpack_percentiles np
                   (map (\<lambda>s. series_sum (iloc_slice returns s (s + window_len))) starts)))"

section \<open>The regression estimator\<close>

text \<open>
  \<open>pd.concat([x, y], axis=1)\<close>: the two series side by side, joined on the index. Equal
  indexes are kept as they are; otherwise the labels of \<open>x\<close> are followed by the labels
  only \<open>y\<close> has, which needs both indexes free of duplicates.
\<close>

definition lookup :: "series \<Rightarrow> int \<Rightarrow> fl" where
  "lookup s t = (case map_of s t of Some v \<Rightarrow> v | None \<Rightarrow> NaN)"

definition concat_axis1 :: "series \<Rightarrow> series \<Rightarrow> error + (int \<times> fl \<times> fl) list" where
  "concat_axis1 x y =
     (if map fst x = map fst y then Inr (map2 (\<lambda>r q. (fst r, snd r, snd q)) x y)
      else if \<not> distinct (map fst x) \<or> \<not> distinct (map fst y)
        then Inl (ValueError ''Reindexing only valid with uniquely valued Index objects'')
      else Inr (map (\<lambda>t. (t, lookup x t, lookup y t))
                  (map fst x @ filter (\<lambda>t. t \<notin> set (map fst x)) (map fst y))))"

definition dropna_rows :: "(int \<times> fl \<times> fl) list \<Rightarrow> (int \<times> fl \<times> fl) list" where
  "dropna_rows rows = filter (\<lambda>r. \<not> isna (fst (snd r)) \<and> \<not> isna (snd (snd r))) rows"

definition ols_alpha_beta :: "numpy \<Rightarrow> series \<Rightarrow> series \<Rightarrow> error + fl \<times> fl" where
  "ols_alpha_beta np x y =
     (case concat_axis1 x y of
        Inl e \<Rightarrow> Inl e
      | Inr rows \<Rightarrow>
          let xy = dropna_rows rows in
          if length xy < 10 then Inr (Fin 0, Fin 0)
          else lstsq np (map (\<lambda>r. (Fin 1, fst (snd r))) xy) (map (\<lambda>r. snd (snd r)) xy))"

section \<open>The single-event estimator\<close>

record Windows =
  estimation :: "int \<times> int"
  event :: "int \<times> int"

definition default_Windows :: Windows where
  "default_Windows = \<lparr>estimation = (- 240, - 24), event = (- 24, 24)\<rparr>"

record ModelCfg =
  benchmark :: "string option"
  use_bootstrap :: bool
  n_boot :: int

definition default_ModelCfg :: ModelCfg where
  "default_ModelCfg = \<lparr>benchmark = Some ''BTC-USD'', use_bootstrap = True, n_boot = 1000\<rparr>"

record EventResult =
  res_event_id :: string
  res_symbol :: string
  res_t0 :: int
  res_ar :: series
  res_car :: series
  res_alpha :: fl
  res_beta :: fl
  res_car_ci :: "fl \<times> fl"

record AggregateResult =
  agg_mean_ar :: series
  agg_mean_car :: series
  agg_car_ci :: "fl \<times> fl"
  agg_per_event :: "EventResult list"

text \<open>
  The difference of two series is taken label by label; in this program both operands
  were cut by the window slicer at the same anchor and window, so their indexes agree.
\<close>

definition series_sub :: "series \<Rightarrow> series \<Rightarrow> error + series" where
  "series_sub a b =
     (case concat_axis1 a b of
        Inl e \<Rightarrow> Inl e
      | Inr rows \<Rightarrow> Inr (map (\<lambda>r. (fst r, fsub (fst (snd r)) (snd (snd r)))) rows))"

definition market_model_ar ::
  "numpy \<Rightarrow> series \<Rightarrow> series option \<Rightarrow> int \<Rightarrow> Windows \<Rightarrow> error + series \<times> fl \<times> fl" where
  "market_model_ar np target_rets bench_rets anchor windows =
     (case slice_window target_rets anchor (estimation windows) of
        Inl e \<Rightarrow> Inl e
      | Inr est_full \<Rightarrow>
          let est = dropna est_full in
          (case bench_rets of
             None \<Rightarrow>
               let mu = (if length est > 0 then series_mean est else Fin 0) in
               (case slice_window target_rets anchor (event windows) of
                  Inl e \<Rightarrow> Inl e
                | Inr ev \<Rightarrow> Inr (map (\<lambda>r. (fst r, fsub (snd r) mu)) ev, mu, Fin 0))
           | Some bench \<Rightarrow>
               (case slice_window bench anchor (estimation windows) of
                  Inl e \<Rightarrow> Inl e
                | Inr est_b \<Rightarrow>
                    (case ols_alpha_beta np est_b est of
                       Inl e \<Rightarrow> Inl e
                     | Inr ab \<Rightarrow>
                         (case slice_window target_rets anchor (event windows) of
                            Inl e \<Rightarrow> Inl e
                          | Inr ev_t \<Rightarrow>
                              (case slice_window bench anchor (event windows) of
                                 Inl e \<Rightarrow> Inl e
                               | Inr ev_b \<Rightarrow>
                                   (case series_sub ev_t
                                           (map (\<lambda>r. (fst r, fadd (fst ab) (fmul (snd ab) (snd r))))
                                              ev_b) of
                                      Inl e \<Rightarrow> Inl e
                                    | Inr abnormal \<Rightarrow> Inr (abnormal, fst ab, snd ab))))))))"

section \<open>The cross-event aggregator\<close>

text \<open>
  A price table is known by its column names and its rows; of a row the program reads
  the timestamp (the index), the symbol and the close. An event row is read for its id,
  its timestamp and its symbol.
\<close>

record price_row =
  p_ts :: int
  p_symbol :: string
  p_close :: fl

record price_frame =
  pf_columns :: "string list"
  pf_rows :: "price_row list"

record event_row =
  ev_event_id :: string
  ev_ts_utc :: int
  ev_symbol :: string

definition ensure_symbol_frame :: "price_frame \<Rightarrow> string \<Rightarrow> error + price_frame" where
  "ensure_symbol_frame df symbol =
     (if ''symbol'' \<notin> set (pf_columns df)
        then Inl (ValueError ''Input prices DataFrame must have a symbol column.'')
      else
        let sub = df\<lparr>pf_rows := filter (\<lambda>r. p_symbol r = symbol) (pf_rows df)\<rparr> in
        if filter (\<lambda>c. c \<notin> set (pf_columns sub)) [''open'', ''high'', ''low'', ''close''] \<noteq> []
          then Inl (ValueError (''Missing columns for '' @ symbol))
        else Inr sub)"

definition close_column :: "price_frame \<Rightarrow> series" where
  "close_column df = map (\<lambda>r. (p_ts r, p_close r)) (pf_rows df)"

text \<open>The body of the loop over the event rows that match the symbol.\<close>

definition event_result ::
  "numpy \<Rightarrow> process \<Rightarrow> ModelCfg \<Rightarrow> Windows \<Rightarrow> string \<Rightarrow> series \<Rightarrow> series option \<Rightarrow> event_row
     \<Rightarrow> error + EventResult" where
  "event_result np proc cfg windows symbol sym_ret bench_ret row =
     (case market_model_ar np sym_ret bench_ret (ev_ts_utc row) windows of
        Inl e \<Rightarrow> Inl e
      | Inr (abnormal, a, b) \<Rightarrow>
          (case (if use_bootstrap cfg then
                   (case slice_window sym_ret (ev_ts_utc row) (estimation windows) of
                      Inl e \<Rightarrow> Inl e
                    | Inr est_full \<Rightarrow>
                        let full_len = length (dropna abnormal); est_series = dropna est_full in
                        if full_len > 3 \<and> length est_series > full_len + 10
                          then bootstrap_car_ci np proc est_series (int full_len) (n_boot cfg) 42
                        else Inr (NaN, NaN))
                 else Inr (NaN, NaN)) of
             Inl e \<Rightarrow> Inl e
           | Inr ci \<Rightarrow>
               Inr \<lparr>res_event_id = ev_event_id row, res_symbol = symbol, res_t0 = ev_ts_utc row,
                    res_ar = abnormal, res_car = series_cumsum abnormal,
                    res_alpha = a, res_beta = b, res_car_ci = ci\<rparr>))"

fun per_event_loop ::
  "numpy \<Rightarrow> process \<Rightarrow> ModelCfg \<Rightarrow> Windows \<Rightarrow> string \<Rightarrow> series \<Rightarrow> series option
     \<Rightarrow> event_row list \<Rightarrow> error + EventResult list" where
  "per_event_loop np proc cfg windows symbol sym_ret bench_ret [] = Inr []"
| "per_event_loop np proc cfg windows symbol sym_ret bench_ret (row # rows) =
     (if ev_symbol row \<noteq> symbol then per_event_loop np proc cfg windows symbol sym_ret bench_ret rows
      else
        (case event_result np proc cfg windows symbol sym_ret bench_ret row of
           Inl e \<Rightarrow> Inl e
         | Inr r \<Rightarrow>
             (case per_event_loop np proc cfg windows symbol sym_ret bench_ret rows of
                Inl e \<Rightarrow> Inl e
              | Inr rs \<Rightarrow> Inr (r # rs))))"

text \<open>
  \<open>pd.concat(columns, axis=1)\<close> of columns whose index was reset: row \<open>i\<close> holds the
  \<open>i\<close>-th value of every column, NaN for a column that is shorter. \<open>mean(axis=1)\<close> then
  averages each row over its values that are not missing.
\<close>

definition aligned_rows :: "fl list list \<Rightarrow> fl list list" where
  "aligned_rows cols =
     map (\<lambda>i. map (\<lambda>c. if i < length c then c ! i else NaN) cols)
       [0..<foldr max (map length cols) 0]"

definition row_mean :: "fl list \<Rightarrow> fl" where
  "row_mean vs =
     (if filter (\<lambda>v. \<not> isna v) vs = [] then NaN
      else fdiv_count (foldl fadd (Fin 0) (filter (\<lambda>v. \<not> isna v) vs))
             (length (filter (\<lambda>v. \<not> isna v) vs)))"

text \<open>The terminal CAR of an event: the last value of its CAR that is not missing.\<close>

definition final_car :: "EventResult \<Rightarrow> fl" where
  "final_car e = (if dropna (res_car e) \<noteq> [] then snd (last (dropna (res_car e))) else NaN)"

definition truthy :: "string option \<Rightarrow> bool" where
  "truthy b = (case b of None \<Rightarrow> False | Some s \<Rightarrow> s \<noteq> [])"

definition bench_returns ::
  "ModelCfg \<Rightarrow> string \<Rightarrow> price_frame option \<Rightarrow> error + series option" where
  "bench_returns cfg symbol bench_prices =
     (if truthy (benchmark cfg) \<and> bench_prices \<noteq> None \<and> Some symbol \<noteq> benchmark cfg
        then (case (bench_prices, benchmark cfg) of
                (Some bp, Some b) \<Rightarrow>
                  (case ensure_symbol_frame bp b of
                     Inl e \<Rightarrow> Inl e
                   | Inr bdf \<Rightarrow> Inr (Some (to_returns (close_column bdf))))
              | _ \<Rightarrow> Inr None)
      else Inr None)"

definition aggregate ::
  "numpy \<Rightarrow> Windows \<Rightarrow> EventResult list \<Rightarrow> error + AggregateResult" where
  "aggregate np windows results =
     (let means = map row_mean (aligned_rows (map (\<lambda>e. map snd (res_ar e)) results));
          labels = [fst (event windows)..snd (event windows)];
          final_cars = filter (\<lambda>v. \<not> isna v) (map final_car results)
      in
        if length labels \<noteq> length means
          then Inl (ValueError ''Length mismatch'')
        else
          Inr \<lparr>agg_mean_ar = zip labels means,
               agg_mean_car = series_cumsum (zip labels means),
               agg_car_ci = (if length final_cars \<ge> 5 then nanpercentile np final_cars
                             else (NaN, NaN)),
               agg_per_event = results\<rparr>)"

definition run_event_study ::
  "numpy \<Rightarrow> process \<Rightarrow> price_frame \<Rightarrow> event_row list \<Rightarrow> string \<Rightarrow> price_frame option
     \<Rightarrow> ModelCfg option \<Rightarrow> Windows option \<Rightarrow> error + AggregateResult" where
  "run_event_study np proc prices events symbol bench_prices cfg_opt windows_opt =
     (let cfg = (case cfg_opt of None \<Rightarrow> default_ModelCfg | Some c \<Rightarrow> c);
          windows = (case windows_opt of None \<Rightarrow> default_Windows | Some w \<Rightarrow> w)
      in
        (case ensure_symbol_frame prices symbol of
           Inl e \<Rightarrow> Inl e
         | Inr sym_df \<Rightarrow>
             (case bench_returns cfg symbol bench_prices of
                Inl e \<Rightarrow> Inl e
              | Inr bench_ret \<Rightarrow>
                  (case per_event_loop np proc cfg windows symbol
                          (to_returns (close_column sym_df)) bench_ret events of
                     Inl e \<Rightarrow> Inl e
                   | Inr results \<Rightarrow>
                       if results = [] then Inl (ValueError (''No events for '' @ symbol))
                       else aggregate np windows results))))"

section \<open>Vocabulary of the properties\<close>

text \<open>
  The conditions under which the properties below are stated. The least-squares routine
  of numpy is part of the environment: \<open>lstsq_contract\<close> says that on finite data it
  returns coefficients that minimise the sum of the squared residuals of its two-column
  system. On data with an infinity nothing is assumed of it (numpy may raise).
\<close>

fun fin_val :: "fl \<Rightarrow> real" where
  "fin_val (Fin a) = a"
| "fin_val v = 0"

fun is_fin :: "fl \<Rightarrow> bool" where
  "is_fin (Fin a) = True"
| "is_fin v = False"

definition sq_err :: "(fl \<times> fl) list \<Rightarrow> fl list \<Rightarrow> real \<Rightarrow> real \<Rightarrow> real" where
  "sq_err X yv a b =
     (\<Sum>p\<leftarrow>zip X yv. (fin_val (snd p) - (a * fin_val (fst (fst p)) + b * fin_val (snd (fst p))))\<^sup>2)"

definition lstsq_contract :: "numpy \<Rightarrow> bool" where
  "lstsq_contract np =
     (\<forall>X yv. length X = length yv \<and> list_all (\<lambda>r. is_fin (fst r) \<and> is_fin (snd r)) X
               \<and> list_all is_fin yv \<longrightarrow>
        (\<exists>a b. lstsq np X yv = Inr (Fin a, Fin b)
               \<and> (\<forall>a' b'. sq_err X yv a b \<le> sq_err X yv a' b')))"

text \<open>An error is the least-squares routine's when the routine raises it on some system.\<close>

definition lstsq_error :: "numpy \<Rightarrow> error \<Rightarrow> bool" where
  "lstsq_error np e = (\<exists>X yv. lstsq np X yv = Inl e)"

text \<open>
  The paired observations of two series, in the words of the specification: the rows of
  \<open>x\<close> whose value is present and at whose timestamp \<open>y\<close> has a present value, each with
  that value of \<open>y\<close>. The residuals of a line are summed over them.
\<close>

definition paired_observations :: "series \<Rightarrow> series \<Rightarrow> (fl \<times> fl) list" where
  "paired_observations x y =
     map (\<lambda>r. (snd r, lookup y (fst r)))
       (filter (\<lambda>r. \<not> isna (snd r) \<and> \<not> isna (lookup y (fst r))) x)"

definition sum_sq_residuals :: "(fl \<times> fl) list \<Rightarrow> real \<Rightarrow> real \<Rightarrow> real" where
  "sum_sq_residuals pairs a b =
     (\<Sum>p\<leftarrow>pairs. (fin_val (snd p) - (a + b * fin_val (fst p)))\<^sup>2)"

text \<open>
  A price table passes the column checks when it has the five columns the program asks
  for; the rows of a symbol have unique timestamps, as the data model requires; and a
  bootstrap that is switched on has an iteration count of at least one.
\<close>

definition has_price_columns :: "price_frame \<Rightarrow> bool" where
  "has_price_columns df =
     list_all (\<lambda>c. c \<in> set (pf_columns df)) [''symbol'', ''open'', ''high'', ''low'', ''close'']"

definition unique_timestamps :: "price_frame \<Rightarrow> string \<Rightarrow> bool" where
  "unique_timestamps df symbol =
     distinct (map p_ts (filter (\<lambda>r. p_symbol r = symbol) (pf_rows df)))"

definition uses_benchmark :: "ModelCfg \<Rightarrow> string \<Rightarrow> price_frame option \<Rightarrow> bool" where
  "uses_benchmark cfg symbol bench_prices =
     (truthy (benchmark cfg) \<and> bench_prices \<noteq> None \<and> Some symbol \<noteq> benchmark cfg)"

definition well_formed_inputs ::
  "price_frame \<Rightarrow> string \<Rightarrow> price_frame option \<Rightarrow> ModelCfg \<Rightarrow> bool" where
  "well_formed_inputs prices symbol bench_prices cfg =
     (has_price_columns prices \<and> unique_timestamps prices symbol
      \<and> (use_bootstrap cfg \<longrightarrow> 1 \<le> n_boot cfg)
      \<and> (case (bench_prices, benchmark cfg) of
            (Some bp, Some b) \<Rightarrow>
              b \<noteq> [] \<and> b \<noteq> symbol \<longrightarrow> has_price_columns bp \<and> unique_timestamps bp b
          | _ \<Rightarrow> True))"

text \<open>
  The closes of a symbol are positive finite numbers; a series holds no infinity.
\<close>

definition positive_closes :: "price_frame \<Rightarrow> string \<Rightarrow> bool" where
  "positive_closes df symbol =
     list_all (\<lambda>r. is_fin (p_close r) \<and> 0 < fin_val (p_close r))
       (filter (\<lambda>r. p_symbol r = symbol) (pf_rows df))"

definition no_infinity :: "series \<Rightarrow> bool" where
  "no_infinity s = list_all (\<lambda>r. snd r \<noteq> PInf \<and> snd r \<noteq> NInf) s"

text \<open>
  The terminal CAR values of a list of per-event results, in the words of the
  specification: the last non-missing CAR of every event that has one.
\<close>

definition terminal_cars :: "EventResult list \<Rightarrow> fl list" where
  "terminal_cars results =
     map (\<lambda>e. snd (last (dropna (res_car e)))) (filter (\<lambda>e. dropna (res_car e) \<noteq> []) results)"

section \<open>Example inputs\<close>

text \<open>Concrete series on which the properties below are evaluated.\<close>

definition sparse_returns :: series where
  "sparse_returns = [(0, Fin 1), (1800, Fin 2), (10800, Fin 3)]"

definition rising_prices :: "(int \<times> real) list" where
  "rising_prices = [(0, exp 0), (3600, exp 1), (7200, exp 3)]"

definition negative_price :: series where
  "negative_price = [(0, Fin 1), (3600, Fin 1), (7200, Fin (- 1)), (10800, Fin 1), (14400, Fin 1)]"

definition zero_price :: series where
  "zero_price = [(0, Fin 1), (3600, Fin 0), (7200, Fin 1)]"


text \<open>
  A stand-in for numpy, for evaluating the program on concrete inputs. Its generator
  counts upwards from the seed inside the requested range. Its percentile is numpy's
  default linear interpolation between the two nearest ranks of the sorted values that
  are not missing (not-a-number for no value, or when an infinity is among them). Its
  least-squares routine solves the normal equations of the two columns.
\<close>

definition linear_percentile :: "real list \<Rightarrow> real \<Rightarrow> real" where
  "linear_percentile xs q =
     (let pos = q / 100 * real (length xs - 1);
          lo = nat \<lfloor>pos\<rfloor>;
          hi = min (lo + 1) (length xs - 1)
      in xs ! lo + (xs ! hi - xs ! lo) * (pos - real lo))"

definition example_nanpercentile :: "fl list \<Rightarrow> fl \<times> fl" where
  "example_nanpercentile vs =
     (let xs = sort (map fin_val (filter is_fin vs)) in
      if xs = [] \<or> PInf \<in> set vs \<or> NInf \<in> set vs then (NaN, NaN)
      else (Fin (linear_percentile xs 2.5), Fin (linear_percentile xs 97.5)))"

definition example_draw :: "nat \<Rightarrow> int \<Rightarrow> int \<Rightarrow> nat \<Rightarrow> int" where
  "example_draw g low high i = low + (int g + int i) mod (high - low)"

definition solve_normal :: "(real \<times> real \<times> real) list \<Rightarrow> real \<times> real" where
  "solve_normal rows =
     (let suu = (\<Sum>r\<leftarrow>rows. fst r * fst r);
          suv = (\<Sum>r\<leftarrow>rows. fst r * fst (snd r));
          svv = (\<Sum>r\<leftarrow>rows. fst (snd r) * fst (snd r));
          suy = (\<Sum>r\<leftarrow>rows. fst r * snd (snd r));
          svy = (\<Sum>r\<leftarrow>rows. fst (snd r) * snd (snd r));
          det = suu * svv - suv * suv
      in if det \<noteq> 0 then ((svv * suy - suv * svy) / det, (suu * svy - suv * suy) / det)
         else if suu \<noteq> 0 then (suy / suu, 0)
         else if svv \<noteq> 0 then (0, svy / svv)
         else (0, 0))"

definition example_lstsq :: "(fl \<times> fl) list \<Rightarrow> fl list \<Rightarrow> error + fl \<times> fl" where
  "example_lstsq X yv =
     (if list_all (\<lambda>r. is_fin (fst r) \<and> is_fin (snd r)) X \<and> list_all is_fin yv
        then (let c = solve_normal
                        (map2 (\<lambda>r y. (fin_val (fst r), fin_val (snd r), fin_val y)) X yv)
              in Inr (Fin (fst c), Fin (snd c)))
      else Inr (NaN, NaN))"

definition example_numpy :: numpy where
  "example_numpy =
     \<lparr>seeded_generator = (\<lambda>k. k), entropy_generator = (\<lambda>e. e),
      draw_integer = example_draw, nanpercentile = example_nanpercentile,
      lstsq = example_lstsq\<rparr>"

definition process_a :: process where
  "process_a = \<lparr>os_entropy = 1, legacy_global_rng = 2\<rparr>"

definition process_b :: process where
  "process_b = \<lparr>os_entropy = 7, legacy_global_rng = 5\<rparr>"

text \<open>Eleven hourly returns of 1, and twelve.\<close>

definition eleven_returns :: series where
  "eleven_returns = map (\<lambda>i. (int i * 3600, Fin 1)) [0..<11]"

definition twelve_returns :: series where
  "twelve_returns = map (\<lambda>i. (int i * 3600, Fin 1)) [0..<12]"

text \<open>
  A price table of two symbols. The closes of ALT are \<open>exp\<close> of 0, 1, 3, 6, 10, 21 and 28
  at the hours 0 to 4, 6 and 7 (no bar at hour 5), so its hourly log returns are 1, 2, 3,
  4, then 11 at hour 6 and 7 at hour 7. Six events, five of them for ALT; an estimation
  window of the three hours before the event and an event window of three hours.
\<close>

definition alt_row :: "int \<Rightarrow> real \<Rightarrow> price_row" where
  "alt_row h c = \<lparr>p_ts = h * 3600, p_symbol = ''ALT'', p_close = Fin (exp c)\<rparr>"

definition btc_row :: "int \<Rightarrow> real \<Rightarrow> price_row" where
  "btc_row h c = \<lparr>p_ts = h * 3600, p_symbol = ''BTC'', p_close = Fin (exp c)\<rparr>"

definition example_prices :: price_frame where
  "example_prices =
     \<lparr>pf_columns = [''symbol'', ''open'', ''high'', ''low'', ''close'', ''volume''],
      pf_rows = [alt_row 0 0, btc_row 0 0, alt_row 1 1, alt_row 2 3, alt_row 3 6, alt_row 4 10,
                 btc_row 4 1, alt_row 6 21, alt_row 7 28]\<rparr>"

definition alt_frame :: price_frame where
  "alt_frame =
     \<lparr>pf_columns = [''symbol'', ''open'', ''high'', ''low'', ''close'', ''volume''],
      pf_rows = [alt_row 0 0, alt_row 1 1, alt_row 2 3, alt_row 3 6, alt_row 4 10,
                 alt_row 6 21, alt_row 7 28]\<rparr>"

definition alt_returns :: series where
  "alt_returns = [(3600, Fin 1), (7200, Fin 2), (10800, Fin 3), (14400, Fin 4),
                  (21600, Fin 11), (25200, Fin 7)]"

definition headless_prices :: price_frame where
  "headless_prices = \<lparr>pf_columns = [''close''], pf_rows = [alt_row 0 0, alt_row 1 1]\<rparr>"

definition closeless_prices :: price_frame where
  "closeless_prices =
     \<lparr>pf_columns = [''symbol'', ''open'', ''high'', ''low'', ''volume''],
      pf_rows = [alt_row 0 0, alt_row 1 1]\<rparr>"

definition flat_returns :: series where
  "flat_returns = map (\<lambda>i. (int i * 3600, Fin 0)) [1..<20]"

definition small_windows :: Windows where
  "small_windows = \<lparr>estimation = (- 3, - 1), event = (0, 2)\<rparr>"

definition no_bootstrap :: ModelCfg where
  "no_bootstrap = \<lparr>benchmark = None, use_bootstrap = False, n_boot = 1000\<rparr>"

definition self_benchmark :: ModelCfg where
  "self_benchmark = \<lparr>benchmark = Some ''ALT'', use_bootstrap = True, n_boot = 3\<rparr>"

definition btc_benchmark :: ModelCfg where
  "btc_benchmark = \<lparr>benchmark = Some ''BTC'', use_bootstrap = True, n_boot = 3\<rparr>"

definition event_at :: "string \<Rightarrow> string \<Rightarrow> int \<Rightarrow> event_row" where
  "event_at name s h = \<lparr>ev_event_id = name, ev_ts_utc = h * 3600, ev_symbol = s\<rparr>"

definition six_events :: "event_row list" where
  "six_events = [event_at ''e1'' ''ALT'' 3, event_at ''e2'' ''ALT'' 4, event_at ''x'' ''BTC'' 4,
                 event_at ''e3'' ''ALT'' 5, event_at ''e4'' ''ALT'' 6, event_at ''e5'' ''ALT'' 7]"

definition three_events :: "event_row list" where
  "three_events = [event_at ''e1'' ''ALT'' 3, event_at ''e2'' ''ALT'' 4, event_at ''x'' ''BTC'' 4]"

definition other_events :: "event_row list" where
  "other_events = [event_at ''x'' ''BTC'' 4]"

definition gapped_ar :: series where
  "gapped_ar = [(14400, Fin 2), (18000, NaN), (21600, Fin 9)]"

text \<open>
  Two series on the line \<open>y = 1 + 2 x\<close>: \<open>x\<close> at the hours 0 to 11 with its value at hour
  3 missing, \<open>y\<close> at the hours 0 to 10. They pair at ten hours; with the last hour of
  \<open>y\<close> taken away they pair at nine.
\<close>

definition line_x :: series where
  "line_x = [(0, Fin 0), (3600, Fin 1), (7200, Fin 2), (10800, NaN), (14400, Fin 4),
             (18000, Fin 5), (21600, Fin 6), (25200, Fin 7), (28800, Fin 8), (32400, Fin 9),
             (36000, Fin 10), (39600, Fin 11)]"

definition line_y :: series where
  "line_y = [(0, Fin 1), (3600, Fin 3), (7200, Fin 5), (10800, Fin 7), (14400, Fin 9),
             (18000, Fin 11), (21600, Fin 13), (25200, Fin 15), (28800, Fin 17),
             (32400, Fin 19), (36000, Fin 21)]"

definition short_y :: series where
  "short_y = take 10 line_y"

section \<open>Properties of the window slicer\<close>

lemma hour_pos: "0 < hour"
  by (simp add: hour_def)

lemma length_date_range_window:
  "length (date_range (t + a * hour) (t + b * hour)) = nat (b - a + 1)"
proof (cases "b < a")
  case True
  then have "t + b * hour < t + a * hour" using hour_pos by simp
  then show ?thesis using True by (simp add: date_range_def)
next
  case False
  then have le: "\<not> t + b * hour < t + a * hour" using hour_pos by (simp add: mult_right_mono)
  have "(t + b * hour - (t + a * hour)) div hour = b - a"
    using hour_pos by (simp add: algebra_simps flip: left_diff_distrib)
  then show ?thesis using False le by (simp add: date_range_def nat_add_distrib)
qed

lemma nth_date_range_window:
  assumes "i < nat (b - a + 1)"
  shows "date_range (t + a * hour) (t + b * hour) ! i = t + (a + int i) * hour"
proof -
  have ab: "a \<le> b" using assms by simp
  then have le: "\<not> t + b * hour < t + a * hour" using hour_pos by (simp add: mult_right_mono)
  have d: "(t + b * hour - (t + a * hour)) div hour = b - a"
    using hour_pos by (simp add: algebra_simps flip: left_diff_distrib)
  have "i < nat (b - a) + 1" using assms ab by (simp add: nat_add_distrib)
  then show ?thesis using le d by (simp add: date_range_def algebra_simps del: upt_Suc)
qed

lemma length_reindex [simp]: "length (reindex s idx) = length idx"
  by (simp add: reindex_def)

lemma map_fst_reindex [simp]: "map fst (reindex s idx) = idx"
  by (simp add: reindex_def comp_def)

lemma reindex_mem:
  "(t, v) \<in> set (reindex s idx) \<Longrightarrow> v \<noteq> NaN \<Longrightarrow> (t, v) \<in> set s"
  by (auto simp: reindex_def split: option.splits dest: map_of_SomeD)

lemma reindex_keys_subset:
  "(t, v) \<in> set (reindex s idx) \<Longrightarrow> v \<noteq> NaN \<Longrightarrow> t \<in> fst ` set s"
  by (metis reindex_mem fst_conv image_eqI)

lemma asfreq_h_distinct:
  assumes "distinct (map fst s)"
  shows "\<exists>s'. asfreq_h s = Inr s'
           \<and> (\<forall>t v. (t, v) \<in> set s' \<longrightarrow> v \<noteq> NaN \<longrightarrow> t \<in> fst ` set s)"
  using assms by (auto simp: asfreq_h_def dest: reindex_keys_subset)

text \<open>
  On a series with unique timestamps the slicer succeeds, and its result has one row for
  every hour of the window, whatever the series holds.
\<close>

lemma slice_window_ok:
  assumes "distinct (map fst s)"
  shows "\<exists>r. slice_window s t w = Inr r \<and> length r = nat (snd w - fst w + 1)
     \<and> map fst r = date_range (t + fst w * hour) (t + snd w * hour)
     \<and> (\<forall>i<length r. fst (r ! i) \<notin> fst ` set s \<longrightarrow> snd (r ! i) = NaN)"
proof -
  obtain s' where s': "asfreq_h s = Inr s'"
    and sub: "\<forall>t v. (t, v) \<in> set s' \<longrightarrow> v \<noteq> NaN \<longrightarrow> t \<in> fst ` set s"
    using asfreq_h_distinct[OF assms] by blast
  let ?idx = "date_range (t + fst w * hour) (t + snd w * hour)"
  let ?r = "reindex s' ?idx"
  have r: "slice_window s t w = Inr ?r" by (simp add: slice_window_def s')
  have len: "length ?r = nat (snd w - fst w + 1)" by (simp add: length_date_range_window)
  have nan: "\<forall>i<length ?r. fst (?r ! i) \<notin> fst ` set s \<longrightarrow> snd (?r ! i) = NaN"
  proof (intro allI impI)
    fix i assume i: "i < length ?r" and a: "fst (?r ! i) \<notin> fst ` set s"
    have mem: "?r ! i \<in> set ?r" using i by simp
    show "snd (?r ! i) = NaN"
    proof (rule ccontr)
      assume n: "snd (?r ! i) \<noteq> NaN"
      then have "(fst (?r ! i), snd (?r ! i)) \<in> set s'"
        using mem reindex_mem[of "fst (?r ! i)" "snd (?r ! i)" s' ?idx] by simp
      then have "fst (?r ! i) \<in> fst ` set s" using sub n by blast
      then show False using a by simp
    qed
  qed
  show ?thesis using r len nan by (intro exI[of _ ?r]) simp
qed

text \<open>
  Claim C1. For a return series (its timestamps are unique), an anchor and a window
  with \<open>start_offset \<le> end_offset\<close>, the slicer returns a series of exactly
  \<open>end_offset - start_offset + 1\<close> rows; row \<open>i\<close> is the hour \<open>start_offset + i\<close> after the
  anchor, and an hour at which the input has no observation is present with the missing
  marker.
\<close>

theorem slice_window_length:
  assumes "distinct (map fst s)" and "start_offset \<le> end_offset"
  shows "\<exists>r. slice_window s t (start_offset, end_offset) = Inr r
     \<and> int (length r) = end_offset - start_offset + 1
     \<and> (\<forall>i<length r. fst (r ! i) = t + (start_offset + int i) * hour
           \<and> (fst (r ! i) \<notin> fst ` set s \<longrightarrow> snd (r ! i) = NaN))"
proof -
  obtain r where r: "slice_window s t (start_offset, end_offset) = Inr r"
    and len: "length r = nat (end_offset - start_offset + 1)"
    and idx: "map fst r = date_range (t + start_offset * hour) (t + end_offset * hour)"
    and nan: "\<forall>i<length r. fst (r ! i) \<notin> fst ` set s \<longrightarrow> snd (r ! i) = NaN"
    using slice_window_ok[OF assms(1), of t "(start_offset, end_offset)"] by auto
  have "\<forall>i<length r. fst (r ! i) = t + (start_offset + int i) * hour"
  proof (intro allI impI)
    fix i assume i: "i < length r"
    have "fst (r ! i) = map fst r ! i" using i by simp
    also have "\<dots> = t + (start_offset + int i) * hour"
      unfolding idx using i len by (simp add: nth_date_range_window)
    finally show "fst (r ! i) = t + (start_offset + int i) * hour" .
  qed
  then show ?thesis using r len nan assms(2) by (intro exI[of _ r]) simp
qed

theorem slice_window_length_witness:
  "distinct (map fst sparse_returns) \<and> (- 1 :: int) \<le> 1
   \<and> (\<exists>r. slice_window sparse_returns 7200 (- 1, 1) = Inr r \<and> int (length r) = 1 - (- 1) + 1
          \<and> r = [(3600, NaN), (7200, NaN), (10800, Fin 3)])"
proof -
  have d: "distinct (map fst sparse_returns)" by (simp add: sparse_returns_def)
  have le: "(- 1 :: int) \<le> 1" by simp
  have ev: "slice_window sparse_returns 7200 (- 1, 1)
              = Inr [(3600, NaN), (7200, NaN), (10800, Fin 3)]"
    by code_simp
  from slice_window_length[OF d le, of 7200] ev show ?thesis using d by auto
qed

section \<open>Properties of the return transform\<close>

lemma dropna_no_NaN: "r \<in> set (dropna s) \<Longrightarrow> snd r \<noteq> NaN"
  by (simp add: dropna_def isna_def)

lemma diff_from_positive:
  "\<forall>r\<in>set rest. 0 < snd r \<Longrightarrow> 0 < snd p \<Longrightarrow>
   diff_from (Fin (ln (snd p))) (map (\<lambda>r. (fst r, np_log (Fin (snd r)))) rest)
     = map2 (\<lambda>prev cur. (fst cur, Fin (ln (snd cur) - ln (snd prev)))) (p # rest) rest"
proof (induction rest arbitrary: p)
  case Nil
  then show ?case by simp
next
  case (Cons q rest)
  then show ?case by (simp add: fsub_def)
qed

lemma diff_from_consecutive:
  "diff_from (np_log (snd p)) (map (\<lambda>r. (fst r, np_log (snd r))) rest)
     = map2 (\<lambda>prev cur. (fst cur, fsub (np_log (snd cur)) (np_log (snd prev)))) (p # rest) rest"
  by (induction rest arbitrary: p) simp_all

text \<open>
  The returns are the differences of the logarithms of consecutive prices, each labelled
  by the later timestamp, without those that are not-a-number.
\<close>

lemma to_returns_consecutive:
  "to_returns prices
     = dropna (map2 (\<lambda>prev cur. (fst cur, fsub (np_log (snd cur)) (np_log (snd prev))))
                 prices (tl prices))"
proof (cases prices)
  case Nil
  then show ?thesis by (simp add: to_returns_def series_diff_def)
next
  case (Cons p rest)
  then show ?thesis
    by (simp add: to_returns_def series_diff_def diff_from_consecutive dropna_def isna_def)
qed

lemma fsub_NaN [simp]: "fsub NaN w = NaN" "fsub v NaN = NaN"
  by (cases v; simp add: fsub_def)+

lemma to_returns_index_subset:
  "t \<in> fst ` set (to_returns prices) \<Longrightarrow>
   \<exists>j. Suc j < length prices \<and> t = fst (prices ! Suc j)
       \<and> fsub (np_log (snd (prices ! Suc j))) (np_log (snd (prices ! j))) \<noteq> NaN"
proof -
  assume "t \<in> fst ` set (to_returns prices)"
  then obtain v where "(t, v) \<in> set (to_returns prices)" by auto
  then have m: "(t, v) \<in> set (map2 (\<lambda>prev cur. (fst cur, fsub (np_log (snd cur)) (np_log (snd prev))))
                         prices (tl prices))" and v: "v \<noteq> NaN"
    unfolding to_returns_consecutive by (auto simp: dropna_def isna_def)
  then obtain j where j: "j < length (zip prices (tl prices))"
    and e: "(t, v) = (\<lambda>(prev, cur). (fst cur, fsub (np_log (snd cur)) (np_log (snd prev))))
                       (zip prices (tl prices) ! j)"
    by (auto simp: in_set_conv_nth)
  have lt: "Suc j < length prices" using j by simp
  have "zip prices (tl prices) ! j = (prices ! j, prices ! Suc j)"
    using j lt by (simp add: nth_tl)
  then show ?thesis using e v lt by auto
qed

text \<open>
  Claim C3, as the code has it. The transform is a total function of the price series
  (nothing in it raises). Its output is exactly the list of the log differences of
  consecutive prices that are not not-a-number: the last step drops the others, so the
  output carries no missing marker, and on a series with unique timestamps the row of a
  negative price and the row after it are absent from the output. On prices that are all
  positive the output is the difference of the logarithms of each price and the one
  before it, labelled by the later timestamp, the first row of the input having no row in
  the output.
\<close>

theorem to_returns_drops_missing:
  "to_returns prices
     = filter (\<lambda>r. snd r \<noteq> NaN)
         (map2 (\<lambda>prev cur. (fst cur, fsub (np_log (snd cur)) (np_log (snd prev))))
            prices (tl prices))
   \<and> (\<forall>r\<in>set (to_returns prices). snd r \<noteq> NaN)
   \<and> (distinct (map fst prices) \<and> i < length prices \<and> snd (prices ! i) = Fin a \<and> a < 0 \<longrightarrow>
        fst (prices ! i) \<notin> fst ` set (to_returns prices)
        \<and> (Suc i < length prices \<longrightarrow> fst (prices ! Suc i) \<notin> fst ` set (to_returns prices)))
   \<and> ((\<forall>r\<in>set ps. 0 < snd r) \<longrightarrow>
        to_returns (map (\<lambda>r. (fst r, Fin (snd r))) ps)
          = map2 (\<lambda>prev cur. (fst cur, Fin (ln (snd cur) - ln (snd prev)))) ps (tl ps))"
proof (intro conjI impI)
  show "to_returns prices
     = filter (\<lambda>r. snd r \<noteq> NaN)
         (map2 (\<lambda>prev cur. (fst cur, fsub (np_log (snd cur)) (np_log (snd prev))))
            prices (tl prices))"
    unfolding to_returns_consecutive by (simp add: dropna_def isna_def)
  show "\<forall>r\<in>set (to_returns prices). snd r \<noteq> NaN"
    unfolding to_returns_def using dropna_no_NaN by blast
next
  assume h: "distinct (map fst prices) \<and> i < length prices \<and> snd (prices ! i) = Fin a \<and> a < 0"
  then have d: "distinct (map fst prices)" and i: "i < length prices"
    and neg: "np_log (snd (prices ! i)) = NaN" by simp_all
  have uniq: "j = k" if "j < length prices" "k < length prices" "fst (prices ! j) = fst (prices ! k)"
    for j k
    using that d nth_eq_iff_index_eq[of "map fst prices" j k] by simp
  show "fst (prices ! i) \<notin> fst ` set (to_returns prices)"
  proof
    assume "fst (prices ! i) \<in> fst ` set (to_returns prices)"
    then obtain j where j: "Suc j < length prices" and t: "fst (prices ! i) = fst (prices ! Suc j)"
      and v: "fsub (np_log (snd (prices ! Suc j))) (np_log (snd (prices ! j))) \<noteq> NaN"
      using to_returns_index_subset by blast
    have "i = Suc j" using uniq[OF i j t] .
    then show False using v neg by simp
  qed
  show "fst (prices ! Suc i) \<notin> fst ` set (to_returns prices)" if si: "Suc i < length prices"
  proof
    assume "fst (prices ! Suc i) \<in> fst ` set (to_returns prices)"
    then obtain j where j: "Suc j < length prices" and t: "fst (prices ! Suc i) = fst (prices ! Suc j)"
      and v: "fsub (np_log (snd (prices ! Suc j))) (np_log (snd (prices ! j))) \<noteq> NaN"
      using to_returns_index_subset by blast
    have "Suc i = Suc j" using uniq[OF si j t] .
    then show False using v neg by simp
  qed
next
  assume pos: "\<forall>r\<in>set ps. 0 < snd r"
  show "to_returns (map (\<lambda>r. (fst r, Fin (snd r))) ps)
          = map2 (\<lambda>prev cur. (fst cur, Fin (ln (snd cur) - ln (snd prev)))) ps (tl ps)"
  proof (cases ps)
    case Nil
    then show ?thesis by (simp add: to_returns_def series_diff_def dropna_def)
  next
    case (Cons p rest)
    have p: "0 < snd p" and rest: "\<forall>r\<in>set rest. 0 < snd r" using pos Cons by auto
    have d: "diff_from (Fin (ln (snd p))) (map (\<lambda>r. (fst r, np_log (Fin (snd r)))) rest)
        = map2 (\<lambda>prev cur. (fst cur, Fin (ln (snd cur) - ln (snd prev)))) (p # rest) rest"
      using diff_from_positive[OF rest p] .
    have keep:
      "dropna (map2 (\<lambda>prev cur. (fst cur, Fin (ln (snd cur) - ln (snd prev)))) (p # rest) rest)
        = map2 (\<lambda>prev cur. (fst cur, Fin (ln (snd cur) - ln (snd prev)))) (p # rest) rest"
      unfolding dropna_def by (rule filter_True) (auto simp: isna_def set_zip)
    show ?thesis
      using p d keep by (simp add: Cons to_returns_def series_diff_def comp_def dropna_def isna_def)
  qed
qed

theorem to_returns_drops_missing_witness:
  "distinct (map fst negative_price) \<and> (2::nat) < length negative_price
   \<and> snd (negative_price ! 2) = Fin (- 1) \<and> (- 1 :: real) < 0
   \<and> 7200 \<notin> fst ` set (to_returns negative_price)
   \<and> 10800 \<notin> fst ` set (to_returns negative_price)
   \<and> list_all (\<lambda>r. 0 < snd r) rising_prices
   \<and> to_returns (map (\<lambda>r. (fst r, Fin (snd r))) rising_prices) = [(3600, Fin 1), (7200, Fin 2)]"
proof -
  have d: "distinct (map fst negative_price)" by (simp add: negative_price_def)
  have i: "(2::nat) < length negative_price" and si: "Suc 2 < length negative_price"
    by (simp_all add: negative_price_def)
  have n: "snd (negative_price ! 2) = Fin (- 1)" by (simp add: negative_price_def)
  have pos: "\<forall>r\<in>set rising_prices. 0 < snd r" by (simp add: rising_prices_def)
  note t = to_returns_drops_missing[of negative_price 2 "- 1" rising_prices]
  note neg_rows = t[THEN conjunct2, THEN conjunct2, THEN conjunct1, rule_format]
  note pos_case = t[THEN conjunct2, THEN conjunct2, THEN conjunct2, rule_format]
  have h: "distinct (map fst negative_price) \<and> 2 < length negative_price
             \<and> snd (negative_price ! 2) = Fin (- 1) \<and> (- 1 :: real) < 0"
    using d i n by simp
  have a1: "fst (negative_price ! 2) \<notin> fst ` set (to_returns negative_price)"
    using neg_rows[OF h] by (rule conjunct1)
  have a2: "fst (negative_price ! Suc 2) \<notin> fst ` set (to_returns negative_price)"
    using neg_rows[OF h, THEN conjunct2] si by (rule mp)
  have k1: "fst (negative_price ! 2) = 7200" and k2: "fst (negative_price ! Suc 2) = 10800"
    by (simp_all add: negative_price_def)
  have absent: "7200 \<notin> fst ` set (to_returns negative_price)"
      "10800 \<notin> fst ` set (to_returns negative_price)"
    using a1 a2 unfolding k1 k2 by blast+
  have "to_returns (map (\<lambda>r. (fst r, Fin (snd r))) rising_prices)
          = map2 (\<lambda>prev cur. (fst cur, Fin (ln (snd cur) - ln (snd prev))))
              rising_prices (tl rising_prices)"
    using pos_case pos by blast
  then have r: "to_returns (map (\<lambda>r. (fst r, Fin (snd r))) rising_prices)
                  = [(3600, Fin 1), (7200, Fin 2)]"
    by (simp add: rising_prices_def)
  have la: "list_all (\<lambda>r. 0 < snd r) rising_prices" by (simp add: rising_prices_def)
  have m: "(- 1 :: real) < 0" by simp
  show ?thesis using d i n m absent r la by blast
qed

text \<open>
  A negative price at 02:00 between prices of 1: the returns of 02:00 and 03:00 are
  not-a-number and both rows are absent from the output, which holds no missing marker.
\<close>

theorem to_returns_negative_price:
  "to_returns negative_price = [(3600, Fin 0), (14400, Fin 0)]"
  by (simp add: negative_price_def to_returns_def series_diff_def dropna_def isna_def fsub_def)

text \<open>A price of zero leaves infinite returns in the output, which are not missing values.\<close>

lemma to_returns_zero_price:
  "to_returns zero_price = [(3600, NInf), (7200, PInf)]"
  by (simp add: zero_price_def to_returns_def series_diff_def dropna_def isna_def fsub_def)

section \<open>Properties of the cumulative sum\<close>

lemma fadd_zero_right [simp]: "fadd acc (Fin 0) = acc"
  by (cases acc) simp_all

lemma np_cumsum_length [simp]: "length (np_cumsum acc vs) = length vs"
  by (induction vs arbitrary: acc) simp_all

lemma np_cumsum_nth:
  "i < length vs \<Longrightarrow> np_cumsum acc vs ! i = foldl fadd acc (take (Suc i) vs)"
proof (induction vs arbitrary: acc i)
  case Nil
  then show ?case by simp
next
  case (Cons v vs)
  then show ?case by (cases i) simp_all
qed

lemma foldl_masked:
  "foldl fadd acc (map (\<lambda>r. if isna (snd r) then Fin 0 else snd r) s)
     = foldl fadd acc (map snd (dropna s))"
  by (induction s arbitrary: acc) (simp_all add: dropna_def)


section \<open>Properties of the regression estimator\<close>

text \<open>
  After the join on the index and the removal of rows with a missing value, the rows
  that remain are the paired observations of the two series.
\<close>


lemma lookup_distinct_mem:
  "distinct (map fst s) \<Longrightarrow> r \<in> set s \<Longrightarrow> lookup s (fst r) = snd r"
  by (cases r) (simp add: lookup_def)

lemma lookup_absent: "t \<notin> fst ` set s \<Longrightarrow> lookup s t = NaN"
  by (cases "map_of s t") (auto simp: lookup_def dest: map_of_SomeD intro: rev_image_eqI)

lemma concat_rows_same_index:
  assumes "distinct (map fst y)" and "map fst x = map fst y"
  shows "map2 (\<lambda>r q. (fst r, snd r, snd q)) x y = map (\<lambda>r. (fst r, snd r, lookup y (fst r))) x"
proof -
  have len: "length x = length y" using assms(2) by (rule map_eq_imp_length_eq)
  have "snd (y ! i) = lookup y (fst (x ! i))" if "i < length x" for i
  proof -
    have "fst (x ! i) = fst (y ! i)" using assms(2) that len by (metis nth_map)
    moreover have "lookup y (fst (y ! i)) = snd (y ! i)"
      using lookup_distinct_mem[OF assms(1)] that len by simp
    ultimately show ?thesis by simp
  qed
  then show ?thesis using len by (simp add: list_eq_iff_nth_eq)
qed

lemma dropna_rows_append [simp]: "dropna_rows (a @ b) = dropna_rows a @ dropna_rows b"
  by (simp add: dropna_rows_def)

lemma dropna_rows_joined:
  assumes "distinct (map fst x)"
  shows "dropna_rows (map (\<lambda>t. (t, lookup x t, lookup y t))
                    (map fst x @ filter (\<lambda>t. t \<notin> set (map fst x)) (map fst y)))
       = dropna_rows (map (\<lambda>r. (fst r, snd r, lookup y (fst r))) x)"
proof -
  have a: "map (\<lambda>t. (t, lookup x t, lookup y t)) (map fst x)
             = map (\<lambda>r. (fst r, snd r, lookup y (fst r))) x"
    using lookup_distinct_mem[OF assms] by simp
  have b: "dropna_rows (map (\<lambda>t. (t, lookup x t, lookup y t))
                         (filter (\<lambda>t. t \<notin> set (map fst x)) (map fst y))) = []"
    by (auto simp: dropna_rows_def filter_empty_conv isna_def lookup_absent)
  have "dropna_rows (map (\<lambda>t. (t, lookup x t, lookup y t))
                    (map fst x @ filter (\<lambda>t. t \<notin> set (map fst x)) (map fst y)))
        = dropna_rows (map (\<lambda>t. (t, lookup x t, lookup y t)) (map fst x))
          @ dropna_rows (map (\<lambda>t. (t, lookup x t, lookup y t))
                         (filter (\<lambda>t. t \<notin> set (map fst x)) (map fst y)))"
    by (simp only: map_append dropna_rows_append)
  then show ?thesis by (simp only: a b append_Nil2)
qed

lemma concat_axis1_paired:
  assumes "distinct (map fst x)" and "distinct (map fst y)"
  shows "\<exists>rows. concat_axis1 x y = Inr rows
           \<and> map (\<lambda>r. (fst (snd r), snd (snd r))) (dropna_rows rows) = paired_observations x y"
proof -
  have p: "map (\<lambda>r. (fst (snd r), snd (snd r)))
             (dropna_rows (map (\<lambda>r. (fst r, snd r, lookup y (fst r))) x))
           = paired_observations x y"
    by (simp add: dropna_rows_def paired_observations_def filter_map comp_def)
  show ?thesis
  proof (cases "map fst x = map fst y")
    case True
    then show ?thesis using p concat_rows_same_index[OF assms(2) True]
      by (simp add: concat_axis1_def)
  next
    case False
    then show ?thesis using p assms dropna_rows_joined[OF assms(1), of y]
      by (simp add: concat_axis1_def)
  qed
qed

lemma sq_err_design:
  "sq_err (map (\<lambda>p. (Fin 1, fst p)) ps) (map snd ps) a b = sum_sq_residuals ps a b"
  by (simp add: sq_err_def sum_sq_residuals_def zip_map_map zip_same_conv_map comp_def)

text \<open>
  Claim C6. For a benchmark series \<open>x\<close> and a target series \<open>y\<close> with unique timestamps:
  with fewer than 10 paired observations the estimator returns (0.0, 0.0); otherwise it
  returns what numpy's least-squares routine returns for the design matrix of a column
  of ones and the column of the paired \<open>x\<close> values, against the paired \<open>y\<close> values, the
  coefficient of the ones first. When that routine meets its contract and the paired
  values are finite, the result is the intercept and the slope of the ordinary least
  squares line: no other line has a smaller sum of squared residuals.
\<close>

theorem ols_alpha_beta_least_squares:
  assumes "distinct (map fst x)" and "distinct (map fst y)"
  shows "(length (paired_observations x y) < 10 \<longrightarrow> ols_alpha_beta np x y = Inr (Fin 0, Fin 0))
     \<and> (10 \<le> length (paired_observations x y) \<longrightarrow>
          ols_alpha_beta np x y
            = lstsq np (map (\<lambda>p. (Fin 1, fst p)) (paired_observations x y))
                (map snd (paired_observations x y)))
     \<and> (10 \<le> length (paired_observations x y) \<and> lstsq_contract np
          \<and> list_all (\<lambda>p. is_fin (fst p) \<and> is_fin (snd p)) (paired_observations x y) \<longrightarrow>
          (\<exists>alpha beta. ols_alpha_beta np x y = Inr (Fin alpha, Fin beta)
             \<and> (\<forall>a b. sum_sq_residuals (paired_observations x y) alpha beta
                        \<le> sum_sq_residuals (paired_observations x y) a b)))"
proof -
  let ?ps = "paired_observations x y"
  obtain rows where rows: "concat_axis1 x y = Inr rows"
    and ps: "map (\<lambda>r. (fst (snd r), snd (snd r))) (dropna_rows rows) = ?ps"
    using concat_axis1_paired[OF assms] by blast
  have len: "length (dropna_rows rows) = length ?ps" using ps by (metis length_map)
  have X: "map (\<lambda>r. (Fin 1, fst (snd r))) (dropna_rows rows) = map (\<lambda>p. (Fin 1, fst p)) ?ps"
    unfolding ps[symmetric] by (simp add: comp_def)
  have Y: "map (\<lambda>r. snd (snd r)) (dropna_rows rows) = map snd ?ps"
    unfolding ps[symmetric] by (simp add: comp_def)
  have few: "ols_alpha_beta np x y = Inr (Fin 0, Fin 0)" if "length ?ps < 10"
    using that by (simp add: ols_alpha_beta_def rows len)
  have many: "ols_alpha_beta np x y = lstsq np (map (\<lambda>p. (Fin 1, fst p)) ?ps) (map snd ?ps)"
    if "10 \<le> length ?ps"
    using that by (simp add: ols_alpha_beta_def rows len X Y)
  have fit: "\<exists>alpha beta. ols_alpha_beta np x y = Inr (Fin alpha, Fin beta)
             \<and> (\<forall>a b. sum_sq_residuals ?ps alpha beta \<le> sum_sq_residuals ?ps a b)"
    if n: "10 \<le> length ?ps" and c: "lstsq_contract np"
      and f: "list_all (\<lambda>p. is_fin (fst p) \<and> is_fin (snd p)) ?ps"
  proof -
    have fx: "list_all (\<lambda>r. is_fin (fst r) \<and> is_fin (snd r)) (map (\<lambda>p. (Fin 1, fst p)) ?ps)"
      using f by (simp add: list_all_iff)
    have fy: "list_all is_fin (map snd ?ps)" using f by (simp add: list_all_iff)
    obtain alpha beta where r: "lstsq np (map (\<lambda>p. (Fin 1, fst p)) ?ps) (map snd ?ps) = Inr (Fin alpha, Fin beta)"
      and m: "\<forall>a b. sq_err (map (\<lambda>p. (Fin 1, fst p)) ?ps) (map snd ?ps) alpha beta
                   \<le> sq_err (map (\<lambda>p. (Fin 1, fst p)) ?ps) (map snd ?ps) a b"
      using c fx fy unfolding lstsq_contract_def
      by (metis (no_types, lifting) length_map)
    show ?thesis using many[OF n] r m by (simp add: sq_err_design)
  qed
  show ?thesis using few many fit by blast
qed

text \<open>
  The stand-in solver meets the contract: its coefficients satisfy the normal equations,
  and coefficients that do minimise the sum of squares.
\<close>

lemma normal_u_expand:
  "(\<Sum>r\<leftarrow>rows. fst r * (snd (snd r) - (a * fst r + b * fst (snd r))))
     = (\<Sum>r\<leftarrow>rows. fst r * snd (snd r)) - a * (\<Sum>r\<leftarrow>rows. fst r * fst r)
       - b * (\<Sum>r\<leftarrow>rows. fst r * fst (snd r))"
  for a b :: real
  by (induction rows) (simp_all add: algebra_simps)

lemma normal_v_expand:
  "(\<Sum>r\<leftarrow>rows. fst (snd r) * (snd (snd r) - (a * fst r + b * fst (snd r))))
     = (\<Sum>r\<leftarrow>rows. fst (snd r) * snd (snd r)) - a * (\<Sum>r\<leftarrow>rows. fst r * fst (snd r))
       - b * (\<Sum>r\<leftarrow>rows. fst (snd r) * fst (snd r))"
  for a b :: real
  by (induction rows) (simp_all add: algebra_simps)

lemma squares_expand:
  "(\<Sum>r\<leftarrow>rows. (snd (snd r) - (a' * fst r + b' * fst (snd r)))\<^sup>2)
     = (\<Sum>r\<leftarrow>rows. (snd (snd r) - (a * fst r + b * fst (snd r)))\<^sup>2)
       + 2 * (a - a') * (\<Sum>r\<leftarrow>rows. fst r * (snd (snd r) - (a * fst r + b * fst (snd r))))
       + 2 * (b - b') * (\<Sum>r\<leftarrow>rows. fst (snd r) * (snd (snd r) - (a * fst r + b * fst (snd r))))
       + (\<Sum>r\<leftarrow>rows. ((a - a') * fst r + (b - b') * fst (snd r))\<^sup>2)"
  for a b a' b' :: real
  by (induction rows) (simp_all add: algebra_simps power2_eq_square)

lemma normal_equations_minimal:
  fixes a b :: real
  assumes "(\<Sum>r\<leftarrow>rows. fst r * (snd (snd r) - (a * fst r + b * fst (snd r)))) = 0"
    and "(\<Sum>r\<leftarrow>rows. fst (snd r) * (snd (snd r) - (a * fst r + b * fst (snd r)))) = 0"
  shows "(\<Sum>r\<leftarrow>rows. (snd (snd r) - (a * fst r + b * fst (snd r)))\<^sup>2)
           \<le> (\<Sum>r\<leftarrow>rows. (snd (snd r) - (a' * fst r + b' * fst (snd r)))\<^sup>2)"
proof -
  have "0 \<le> (\<Sum>r\<leftarrow>rows. ((a - a') * fst r + (b - b') * fst (snd r))\<^sup>2)"
    by (rule sum_list_nonneg) auto
  then show ?thesis unfolding squares_expand[of a' b' rows a b] assms by simp
qed

lemma cross_squares:
  "(\<Sum>r\<leftarrow>rows. (p * fst (snd r) - q * fst r)\<^sup>2)
     = p * p * (\<Sum>r\<leftarrow>rows. fst (snd r) * fst (snd r)) - 2 * p * q * (\<Sum>r\<leftarrow>rows. fst r * fst (snd r))
       + q * q * (\<Sum>r\<leftarrow>rows. fst r * fst r)"
  for p q :: real
  by (induction rows) (simp_all add: algebra_simps power2_eq_square)

lemma sum_squares_zero:
  fixes f :: "'a \<Rightarrow> real"
  assumes "(\<Sum>r\<leftarrow>rows. f r * f r) = 0"
  shows "\<forall>r\<in>set rows. f r = 0"
proof -
  have "\<forall>x\<in>set (map (\<lambda>r. f r * f r) rows). 0 \<le> x" by auto
  then have "\<forall>x\<in>set (map (\<lambda>r. f r * f r) rows). x = 0"
    using assms sum_list_nonneg_eq_0_iff by blast
  then show ?thesis by auto
qed

lemma sum_list_zero_terms:
  fixes f :: "'a \<Rightarrow> real"
  shows "\<forall>r\<in>set rows. f r = 0 \<Longrightarrow> (\<Sum>r\<leftarrow>rows. f r) = 0"
  by (induction rows) simp_all

lemma solve_normal_equations:
  assumes "solve_normal rows = (a, b)"
  shows "(\<Sum>r\<leftarrow>rows. fst r * (snd (snd r) - (a * fst r + b * fst (snd r)))) = 0
       \<and> (\<Sum>r\<leftarrow>rows. fst (snd r) * (snd (snd r) - (a * fst r + b * fst (snd r)))) = 0"
proof -
  define suu where "suu = (\<Sum>r\<leftarrow>rows. fst r * fst r)"
  define suv where "suv = (\<Sum>r\<leftarrow>rows. fst r * fst (snd r))"
  define svv where "svv = (\<Sum>r\<leftarrow>rows. fst (snd r) * fst (snd r))"
  define suy where "suy = (\<Sum>r\<leftarrow>rows. fst r * snd (snd r))"
  define svy where "svy = (\<Sum>r\<leftarrow>rows. fst (snd r) * snd (snd r))"
  define det where "det = suu * svv - suv * suv"
  have sol: "(a, b) = (if det \<noteq> 0 then ((svv * suy - suv * svy) / det, (suu * svy - suv * suy) / det)
         else if suu \<noteq> 0 then (suy / suu, 0)
         else if svv \<noteq> 0 then (0, svy / svv)
         else (0, 0))"
    using assms unfolding solve_normal_def Let_def suu_def suv_def svv_def suy_def svy_def det_def
    by simp
  have goal: "?thesis \<longleftrightarrow> suy - a * suu - b * suv = 0 \<and> svy - a * suv - b * svv = 0"
    unfolding normal_u_expand normal_v_expand suu_def suv_def svv_def suy_def svy_def by simp
  show ?thesis
  proof (cases "det \<noteq> 0")
    case True
    then have a: "a = (svv * suy - suv * svy) / det" and b: "b = (suu * svy - suv * suy) / det"
      using sol by simp_all
    have "(suy - a * suu - b * suv) * det = 0" "(svy - a * suv - b * svv) * det = 0"
      unfolding a b using True by (simp_all add: field_simps det_def)
    then show ?thesis using True goal by simp
  next
    case False
    then have det0: "suu * svv - suv * suv = 0" by (simp add: det_def)
    show ?thesis
    proof (cases "suu \<noteq> 0")
      case True
      then have a: "a = suy / suu" and b: "b = 0" using sol False by simp_all
      have "(\<Sum>r\<leftarrow>rows. (suu * fst (snd r) - suv * fst r)\<^sup>2) = suu * (suu * svv - suv * suv)"
        unfolding cross_squares by (simp add: algebra_simps suu_def suv_def svv_def)
      then have "(\<Sum>r\<leftarrow>rows. (suu * fst (snd r) - suv * fst r) * (suu * fst (snd r) - suv * fst r)) = 0"
        using det0 by (simp add: power2_eq_square)
      then have coll: "\<forall>r\<in>set rows. suu * fst (snd r) - suv * fst r = 0"
        by (rule sum_squares_zero)
      have "(\<Sum>r\<leftarrow>rows. (suu * fst (snd r) - suv * fst r) * snd (snd r)) = 0"
        by (rule sum_list_zero_terms) (use coll in simp)
      moreover have "(\<Sum>r\<leftarrow>rows. (suu * fst (snd r) - suv * fst r) * snd (snd r))
                       = suu * svy - suv * suy"
        unfolding svy_def suy_def by (induction rows) (simp_all add: algebra_simps)
      ultimately have "suu * svy = suv * suy" by simp
      then have "svy - a * suv - b * svv = 0" unfolding a b using True by (simp add: field_simps)
      moreover have "suy - a * suu - b * suv = 0" unfolding a b using True by simp
      ultimately show ?thesis using goal by simp
    next
      case suu0: False
      then have "(\<Sum>r\<leftarrow>rows. fst r * fst r) = 0" by (simp add: suu_def)
      then have u0: "\<forall>r\<in>set rows. fst r = 0" by (rule sum_squares_zero)
      have suv0: "suv = 0" unfolding suv_def by (rule sum_list_zero_terms) (use u0 in simp)
      have suy0: "suy = 0" unfolding suy_def by (rule sum_list_zero_terms) (use u0 in simp)
      show ?thesis
      proof (cases "svv \<noteq> 0")
        case True
        then have a: "a = 0" and b: "b = svy / svv" using sol False suu0 by simp_all
        show ?thesis using goal True suu0 suv0 suy0 by (simp add: a b)
      next
        case svv0: False
        then have a: "a = 0" and b: "b = 0" using sol False suu0 by simp_all
        have "(\<Sum>r\<leftarrow>rows. fst (snd r) * fst (snd r)) = 0" using svv0 by (simp add: svv_def)
        then have v0: "\<forall>r\<in>set rows. fst (snd r) = 0" by (rule sum_squares_zero)
        have svy0: "svy = 0" unfolding svy_def by (rule sum_list_zero_terms) (use v0 in simp)
        show ?thesis using goal suy0 svy0 by (simp add: a b)
      qed
    qed
  qed
qed

lemma example_lstsq_contract: "lstsq_contract example_numpy"
  unfolding lstsq_contract_def
proof (intro allI impI)
  fix X :: "(fl \<times> fl) list" and yv :: "fl list"
  assume h: "length X = length yv \<and> list_all (\<lambda>r. is_fin (fst r) \<and> is_fin (snd r)) X
               \<and> list_all is_fin yv"
  let ?rows = "map2 (\<lambda>r y. (fin_val (fst r), fin_val (snd r), fin_val y)) X yv"
  obtain a b where ab: "solve_normal ?rows = (a, b)" by (cases "solve_normal ?rows")
  have r: "lstsq example_numpy X yv = Inr (Fin a, Fin b)"
    using h ab by (simp add: example_numpy_def example_lstsq_def)
  have e: "sq_err X yv a' b' = (\<Sum>r\<leftarrow>?rows. (snd (snd r) - (a' * fst r + b' * fst (snd r)))\<^sup>2)"
    for a' b'
    by (simp add: sq_err_def comp_def case_prod_beta)
  have "sq_err X yv a b \<le> sq_err X yv a' b'" for a' b'
    unfolding e using solve_normal_equations[OF ab] normal_equations_minimal by blast
  then show "\<exists>a b. lstsq example_numpy X yv = Inr (Fin a, Fin b)
            \<and> (\<forall>a' b'. sq_err X yv a b \<le> sq_err X yv a' b')"
    using r by blast
qed

theorem ols_alpha_beta_least_squares_witness:
  "distinct (map fst line_x) \<and> distinct (map fst line_y) \<and> distinct (map fst short_y)
   \<and> lstsq_contract example_numpy
   \<and> length (paired_observations line_x line_y) = 10
   \<and> list_all (\<lambda>p. is_fin (fst p) \<and> is_fin (snd p)) (paired_observations line_x line_y)
   \<and> ols_alpha_beta example_numpy line_x line_y = Inr (Fin 1, Fin 2)
   \<and> (\<forall>a b. sum_sq_residuals (paired_observations line_x line_y) 1 2
               \<le> sum_sq_residuals (paired_observations line_x line_y) a b)
   \<and> length (paired_observations line_x short_y) = 9
   \<and> ols_alpha_beta example_numpy line_x short_y = Inr (Fin 0, Fin 0)"
proof -
  have dx: "distinct (map fst line_x)" by (simp add: line_x_def)
  have dy: "distinct (map fst line_y)" by (simp add: line_y_def)
  have ds: "distinct (map fst short_y)" by (simp add: short_y_def line_y_def)
  have n10: "length (paired_observations line_x line_y) = 10" by code_simp
  have n9: "length (paired_observations line_x short_y) = 9" by code_simp
  have fin: "list_all (\<lambda>p. is_fin (fst p) \<and> is_fin (snd p)) (paired_observations line_x line_y)"
    by code_simp
  have ev: "ols_alpha_beta example_numpy line_x line_y = Inr (Fin 1, Fin 2)" by code_simp
  have g10: "10 \<le> length (paired_observations line_x line_y)" using n10 by simp
  note long = ols_alpha_beta_least_squares[OF dx dy, of example_numpy]
  note short = ols_alpha_beta_least_squares[OF dx ds, of example_numpy]
  obtain alpha beta where ab: "ols_alpha_beta example_numpy line_x line_y = Inr (Fin alpha, Fin beta)"
    and least: "\<forall>a b. sum_sq_residuals (paired_observations line_x line_y) alpha beta
                     \<le> sum_sq_residuals (paired_observations line_x line_y) a b"
    using long g10 fin example_lstsq_contract by blast
  have "alpha = 1" "beta = 2" using ab ev by simp_all
  then have least': "\<forall>a b. sum_sq_residuals (paired_observations line_x line_y) 1 2
                     \<le> sum_sq_residuals (paired_observations line_x line_y) a b"
    using least by simp
  have zero: "ols_alpha_beta example_numpy line_x short_y = Inr (Fin 0, Fin 0)"
    using short n9 by simp
  show ?thesis using dx dy ds example_lstsq_contract n10 fin ev least' n9 zero by blast
qed

section \<open>Properties of the resampling confidence estimator\<close>

text \<open>
  A window that starts inside the history and has a length that is not negative is the
  run of that many consecutive returns from its start.
\<close>

lemma iloc_slice_window:
  "0 \<le> s \<Longrightarrow> 0 \<le> w \<Longrightarrow> iloc_slice xs s (s + w) = take (nat w) (drop (nat s) xs)"
  by (auto simp: iloc_slice_def slice_bound_def min_def nat_add_distrib)

lemma length_rng_integers:
  "rng_integers np g low high n = Inr starts \<Longrightarrow> length starts = nat n"
  by (auto simp: rng_integers_def split: if_splits)

text \<open>
  Claim C2, as the code has it. With a seed that is not negative (42 unless the caller
  gives one) and any iteration count, the estimator returns (NaN, NaN) when the history
  is shorter than the window length plus 10. When the history has at least the window
  length plus 10 rows and the iteration count is at least 1, it draws that many start
  positions below \<open>length - window_len\<close> from the seeded generator, sums the window at each
  start, and returns the two percentiles of the sums. A history of exactly the window
  length plus 10 rows is resampled.
\<close>

theorem bootstrap_car_ci_threshold:
  assumes "0 \<le> random_state"
  shows "(int (length returns) < window_len + 10 \<longrightarrow>
            bootstrap_car_ci np proc returns window_len n_iter random_state = Inr (NaN, NaN))
       \<and> (window_len + 10 \<le> int (length returns) \<and> 1 \<le> n_iter \<longrightarrow>
            bootstrap_car_ci np proc returns window_len n_iter random_state
              = Inr (nanpercentile np
                       (map (\<lambda>s. series_sum (iloc_slice returns s (s + window_len)))
                          (map (draw_integer np (seeded_generator np (nat random_state)) 0
                                  (int (length returns) - window_len))
                             [0..<nat n_iter]))))"
proof (intro conjI impI)
  show "bootstrap_car_ci np proc returns window_len n_iter random_state = Inr (NaN, NaN)"
    if "int (length returns) < window_len + 10"
    using that assms by (simp add: bootstrap_car_ci_def default_rng_def)
  assume h: "window_len + 10 \<le> int (length returns) \<and> 1 \<le> n_iter"
  then have "[0..<nat n_iter] \<noteq> []" by simp
  then show "bootstrap_car_ci np proc returns window_len n_iter random_state
              = Inr (nanpercentile np
                       (map (\<lambda>s. series_sum (iloc_slice returns s (s + window_len)))
                          (map (draw_integer np (seeded_generator np (nat random_state)) 0
                                  (int (length returns) - window_len))
                             [0..<nat n_iter])))"
    using h assms
    by (simp add: bootstrap_car_ci_def default_rng_def rng_integers_def unpack_percentiles_def)
qed

theorem bootstrap_car_ci_threshold_witness:
  "(0::int) \<le> 42 \<and> int (length eleven_returns) < 2 + 10
   \<and> bootstrap_car_ci example_numpy process_a eleven_returns 2 3 42 = Inr (NaN, NaN)
   \<and> 2 + 10 \<le> int (length twelve_returns) \<and> (1::int) \<le> 3
   \<and> bootstrap_car_ci example_numpy process_a twelve_returns 2 3 42 = Inr (Fin 2, Fin 2)"
proof -
  have s: "(0::int) \<le> 42" by simp
  have short: "int (length eleven_returns) < 2 + 10" by (simp add: eleven_returns_def)
  have long: "2 + 10 \<le> int (length twelve_returns) \<and> (1::int) \<le> 3"
    by (simp add: twelve_returns_def)
  have a: "bootstrap_car_ci example_numpy process_a eleven_returns 2 3 42 = Inr (NaN, NaN)"
    using bootstrap_car_ci_threshold[OF s, of eleven_returns 2 example_numpy process_a 3] short
    by blast
  have "bootstrap_car_ci example_numpy process_a twelve_returns 2 3 42
          = Inr (nanpercentile example_numpy
                   (map (\<lambda>s. series_sum (iloc_slice twelve_returns s (s + 2)))
                      (map (draw_integer example_numpy (seeded_generator example_numpy (nat 42)) 0
                              (int (length twelve_returns) - 2))
                         [0..<nat 3])))"
    using bootstrap_car_ci_threshold[OF s, of twelve_returns 2 example_numpy process_a 3] long
    by blast
  also have "\<dots> = Inr (Fin 2, Fin 2)" by code_simp
  finally show ?thesis using short long a by simp
qed

text \<open>
  Outside these bounds the estimator raises: with enough history and no iteration the
  percentiles of no sum cannot be unpacked, and numpy refuses a negative iteration count
  and a negative seed.
\<close>

lemma bootstrap_car_ci_no_iteration:
  "0 \<le> random_state \<Longrightarrow> window_len + 10 \<le> int (length returns) \<Longrightarrow>
   bootstrap_car_ci np proc returns window_len 0 random_state
     = Inl (TypeError ''cannot unpack non-iterable float object'')"
  by (simp add: bootstrap_car_ci_def default_rng_def rng_integers_def unpack_percentiles_def)

lemma bootstrap_car_ci_negative_iterations:
  "0 \<le> random_state \<Longrightarrow> window_len + 10 \<le> int (length returns) \<Longrightarrow> n_iter < 0 \<Longrightarrow>
   bootstrap_car_ci np proc returns window_len n_iter random_state
     = Inl (ValueError ''negative dimensions are not allowed'')"
  by (simp add: bootstrap_car_ci_def default_rng_def rng_integers_def)

lemma bootstrap_car_ci_negative_seed:
  "random_state < 0 \<Longrightarrow>
   bootstrap_car_ci np proc returns window_len n_iter random_state
     = Inl (ValueError ''expected non-negative integer'')"
  by (simp add: bootstrap_car_ci_def default_rng_def)

text \<open>
  Eleven returns and a window of one: the history does not exceed the window length plus
  10, and the estimator resamples it all the same.
\<close>

theorem bootstrap_car_ci_boundary:
  "int (length eleven_returns) \<le> 1 + 10
   \<and> bootstrap_car_ci example_numpy process_a eleven_returns 1 3 42 = Inr (Fin 1, Fin 1)"
proof -
  have "int (length eleven_returns) \<le> 1 + 10" by (simp add: eleven_returns_def)
  moreover have "bootstrap_car_ci example_numpy process_a eleven_returns 1 3 42
                   = Inr (Fin 1, Fin 1)"
    by code_simp
  ultimately show ?thesis by simp
qed

text \<open>
  Claim C7. The generator of the estimator is built from the seed it is given, so its
  result is the same in any two states of the process-wide sources of randomness: with
  the same history, window length, iteration count and seed, two invocations return the
  same pair (or fail alike).
\<close>

theorem bootstrap_car_ci_deterministic:
  "bootstrap_car_ci np proc1 returns window_len n_iter random_state
     = bootstrap_car_ci np proc2 returns window_len n_iter random_state"
  by (simp add: bootstrap_car_ci_def default_rng_def)

theorem bootstrap_car_ci_deterministic_witness:
  "bootstrap_car_ci example_numpy process_a twelve_returns 2 3 42
     = bootstrap_car_ci example_numpy process_b twelve_returns 2 3 42"
  by (rule bootstrap_car_ci_deterministic)

text \<open>A generator made without a seed, by contrast, depends on the process.\<close>

lemma default_rng_unseeded:
  "default_rng np proc None = Inr (entropy_generator np (os_entropy proc))"
  by (simp add: default_rng_def)

section \<open>Where the pipeline can fail\<close>

text \<open>
  The lemmas of this section follow the pipeline from the return series to the aggregate
  and show where an error can and cannot arise.
\<close>


lemma map_fst_diff_from [simp]: "map fst (diff_from p s) = map fst s"
  by (induction s arbitrary: p) simp_all

lemma map_fst_series_diff [simp]: "map fst (series_diff s) = map fst s"
  by (cases s) (simp_all add: series_diff_def)

lemma distinct_dropna: "distinct (map fst s) \<Longrightarrow> distinct (map fst (dropna s))"
  by (simp add: dropna_def distinct_map_filter)

lemma to_returns_distinct:
  "distinct (map fst prices) \<Longrightarrow> distinct (map fst (to_returns prices))"
  unfolding to_returns_def by (rule distinct_dropna) (simp add: comp_def)

lemma distinct_date_range: "distinct (date_range a b)"
  by (auto simp: date_range_def distinct_map hour_def intro!: inj_onI)

lemma slice_window_index:
  assumes "distinct (map fst s)"
  obtains r where "slice_window s t w = Inr r"
    and "map fst r = date_range (t + fst w * hour) (t + snd w * hour)"
    and "length r = nat (snd w - fst w + 1)"
  using slice_window_ok[OF assms, of t w] by blast

lemma concat_axis1_same_index:
  "map fst a = map fst b \<Longrightarrow> concat_axis1 a b = Inr (map2 (\<lambda>r q. (fst r, snd r, snd q)) a b)"
  by (simp add: concat_axis1_def)

lemma series_sub_same_index:
  "map fst a = map fst b \<Longrightarrow>
   series_sub a b = Inr (map2 (\<lambda>r q. (fst r, fsub (snd r) (snd q))) a b)"
  by (simp add: series_sub_def concat_axis1_same_index map2_map_map zip_map_map
        list_eq_iff_nth_eq)

text \<open>Where the regression estimator can fail, and where it cannot.\<close>

lemma ols_alpha_beta_paired:
  assumes "distinct (map fst x)" and "distinct (map fst y)"
  shows "ols_alpha_beta np x y
     = (if length (paired_observations x y) < 10 then Inr (Fin 0, Fin 0)
        else lstsq np (map (\<lambda>p. (Fin 1, fst p)) (paired_observations x y))
               (map snd (paired_observations x y)))"
proof -
  let ?ps = "paired_observations x y"
  obtain rows where rows: "concat_axis1 x y = Inr rows"
    and ps: "map (\<lambda>r. (fst (snd r), snd (snd r))) (dropna_rows rows) = ?ps"
    using concat_axis1_paired[OF assms] by blast
  have len: "length (dropna_rows rows) = length ?ps" using ps by (metis length_map)
  have X: "map (\<lambda>r. (Fin 1, fst (snd r))) (dropna_rows rows) = map (\<lambda>p. (Fin 1, fst p)) ?ps"
    unfolding ps[symmetric] by (simp add: comp_def)
  have Y: "map (\<lambda>r. snd (snd r)) (dropna_rows rows) = map snd ?ps"
    unfolding ps[symmetric] by (simp add: comp_def)
  show ?thesis by (simp add: ols_alpha_beta_def rows len X Y)
qed

lemma ols_alpha_beta_outcome:
  assumes "distinct (map fst x)" and "distinct (map fst y)"
  shows "(\<exists>c. ols_alpha_beta np x y = Inr c)
       \<or> (\<exists>e. ols_alpha_beta np x y = Inl e \<and> lstsq_error np e)"
proof (cases "ols_alpha_beta np x y")
  case (Inr c)
  then show ?thesis by simp
next
  case (Inl e)
  then have "lstsq np (map (\<lambda>p. (Fin 1, fst p)) (paired_observations x y))
               (map snd (paired_observations x y)) = Inl e"
    unfolding ols_alpha_beta_paired[OF assms] by (simp split: if_splits)
  then have "lstsq_error np e" unfolding lstsq_error_def by blast
  then show ?thesis using Inl by simp
qed

lemma fl_is_fin: "v \<noteq> NaN \<Longrightarrow> v \<noteq> PInf \<Longrightarrow> v \<noteq> NInf \<Longrightarrow> is_fin v"
  by (cases v) simp_all

lemma no_infinity_mem: "no_infinity s \<Longrightarrow> r \<in> set s \<Longrightarrow> snd r \<noteq> PInf \<and> snd r \<noteq> NInf"
  by (simp add: no_infinity_def list_all_iff)

lemma lookup_mem: "lookup y t \<noteq> NaN \<Longrightarrow> (t, lookup y t) \<in> set y"
  by (cases "map_of y t") (auto simp: lookup_def dest: map_of_SomeD)

lemma paired_observations_finite:
  assumes "no_infinity x" and "no_infinity y"
  shows "list_all (\<lambda>p. is_fin (fst p) \<and> is_fin (snd p)) (paired_observations x y)"
proof -
  have "is_fin (snd r) \<and> is_fin (lookup y (fst r))"
    if r: "r \<in> set x" and a: "\<not> isna (snd r)" and b: "\<not> isna (lookup y (fst r))" for r
  proof -
    have "is_fin (snd r)" using no_infinity_mem[OF assms(1) r] a by (simp add: fl_is_fin isna_def)
    moreover have "(fst r, lookup y (fst r)) \<in> set y" using b lookup_mem by (simp add: isna_def)
    then have "is_fin (lookup y (fst r))"
      using no_infinity_mem[OF assms(2)] b by (fastforce simp: isna_def intro: fl_is_fin)
    ultimately show ?thesis by simp
  qed
  then show ?thesis by (auto simp: paired_observations_def list_all_iff)
qed

lemma ols_alpha_beta_finite:
  assumes "distinct (map fst x)" and "distinct (map fst y)"
    and "lstsq_contract np" and "no_infinity x" and "no_infinity y"
  shows "\<exists>c. ols_alpha_beta np x y = Inr c"
proof -
  let ?ps = "paired_observations x y"
  have f: "list_all (\<lambda>p. is_fin (fst p) \<and> is_fin (snd p)) ?ps"
    using paired_observations_finite[OF assms(4,5)] .
  have fx: "list_all (\<lambda>r. is_fin (fst r) \<and> is_fin (snd r)) (map (\<lambda>p. (Fin 1, fst p)) ?ps)"
    using f by (simp add: list_all_iff)
  have fy: "list_all is_fin (map snd ?ps)" using f by (simp add: list_all_iff)
  have "\<exists>a b. lstsq np (map (\<lambda>p. (Fin 1, fst p)) ?ps) (map snd ?ps) = Inr (Fin a, Fin b)"
    using assms(3) fx fy unfolding lstsq_contract_def by (metis (no_types, lifting) length_map)
  then show ?thesis unfolding ols_alpha_beta_paired[OF assms(1,2)] by auto
qed

text \<open>Slicing and dropping missing values bring no infinity into a series.\<close>

lemma no_infinity_dropna: "no_infinity s \<Longrightarrow> no_infinity (dropna s)"
  by (simp add: no_infinity_def dropna_def list_all_iff)

lemma no_infinity_reindex: "no_infinity s \<Longrightarrow> no_infinity (reindex s idx)"
proof -
  assume s: "no_infinity s"
  have "snd r \<noteq> PInf \<and> snd r \<noteq> NInf" if "r \<in> set (reindex s idx)" for r
  proof (cases "snd r = NaN")
    case True
    then show ?thesis by simp
  next
    case False
    then have "(fst r, snd r) \<in> set s" using that reindex_mem[of "fst r" "snd r" s idx] by simp
    then show ?thesis using no_infinity_mem[OF s] by fastforce
  qed
  then show ?thesis by (simp add: no_infinity_def list_all_iff)
qed

lemma no_infinity_slice_window:
  assumes "no_infinity s" and "slice_window s t w = Inr r"
  shows "no_infinity r"
proof -
  obtain s' where s': "asfreq_h s = Inr s'"
    and r: "r = reindex s' (date_range (t + fst w * hour) (t + snd w * hour))"
    using assms(2) by (auto simp: slice_window_def split: sum.splits)
  have "no_infinity s'"
    using s' assms(1) no_infinity_reindex
    by (auto simp: asfreq_h_def no_infinity_def split: if_splits)
  then show ?thesis unfolding r by (rule no_infinity_reindex)
qed

lemma no_infinity_to_returns:
  assumes "list_all (\<lambda>r. is_fin (snd r) \<and> 0 < fin_val (snd r)) prices"
  shows "no_infinity (to_returns prices)"
proof -
  have pos: "\<exists>a. snd r = Fin a \<and> 0 < a" if "r \<in> set prices" for r
  proof -
    have "is_fin (snd r) \<and> 0 < fin_val (snd r)" using assms that by (simp add: list_all_iff)
    then show ?thesis by (cases "snd r") auto
  qed
  have "snd q \<noteq> PInf \<and> snd q \<noteq> NInf"
    if qm: "q \<in> set (map2 (\<lambda>prev cur. (fst cur, fsub (np_log (snd cur)) (np_log (snd prev))))
                    prices (tl prices))" for q
  proof -
    obtain p where p: "p \<in> set (zip prices (tl prices))"
      and q: "q = (fst (snd p), fsub (np_log (snd (snd p))) (np_log (snd (fst p))))"
      using qm by (auto simp: case_prod_beta)
    have sub: "set (tl prices) \<subseteq> set prices" by (cases prices) auto
    have "fst p \<in> set prices" using p by (metis prod.collapse set_zip_leftD)
    moreover have "snd p \<in> set prices" using p sub by (metis prod.collapse set_zip_rightD subsetD)
    ultimately obtain a b where "snd (fst p) = Fin a" "0 < a" "snd (snd p) = Fin b" "0 < b"
      using pos by blast
    then show ?thesis unfolding q by (simp add: fsub_def)
  qed
  then show ?thesis
    unfolding to_returns_consecutive by (simp add: no_infinity_def dropna_def list_all_iff)
qed


text \<open>The single-event estimator: its result without a benchmark, and with one.\<close>

lemma market_model_ar_no_benchmark:
  assumes "distinct (map fst target_rets)"
  shows "\<exists>est ev mu. slice_window target_rets anchor (estimation windows) = Inr est
      \<and> slice_window target_rets anchor (event windows) = Inr ev
      \<and> mu = (if dropna est = [] then Fin 0
              else fdiv_count (series_sum est) (length (dropna est)))
      \<and> market_model_ar np target_rets None anchor windows
          = Inr (map (\<lambda>r. (fst r, fsub (snd r) mu)) ev, mu, Fin 0)"
proof -
  obtain est where est: "slice_window target_rets anchor (estimation windows) = Inr est"
    using slice_window_index[OF assms] by metis
  obtain ev where ev: "slice_window target_rets anchor (event windows) = Inr ev"
    using slice_window_index[OF assms] by metis
  have dd: "dropna (dropna est) = dropna est" by (simp add: dropna_def)
  have mean: "series_mean (dropna est) = fdiv_count (series_sum est) (length (dropna est))"
    if "dropna est \<noteq> []"
    using that by (simp add: series_mean_def series_sum_def dd)
  show ?thesis
    using est ev mean by (auto simp: market_model_ar_def Let_def)
qed

lemma market_model_ar_benchmark:
  assumes "distinct (map fst target_rets)" and "distinct (map fst bench)"
  shows "\<exists>est est_b. slice_window target_rets anchor (estimation windows) = Inr est
      \<and> slice_window bench anchor (estimation windows) = Inr est_b
      \<and> distinct (map fst est_b) \<and> distinct (map fst (dropna est))
      \<and> (case ols_alpha_beta np est_b (dropna est) of
            Inl e \<Rightarrow> market_model_ar np target_rets (Some bench) anchor windows = Inl e
          | Inr ab \<Rightarrow>
              (\<exists>abn. market_model_ar np target_rets (Some bench) anchor windows
                       = Inr (abn, fst ab, snd ab)
                  \<and> length abn = nat (snd (event windows) - fst (event windows) + 1)))"
proof -
  obtain est where est: "slice_window target_rets anchor (estimation windows) = Inr est"
    and est_idx: "map fst est = date_range (anchor + fst (estimation windows) * hour)
                    (anchor + snd (estimation windows) * hour)"
    using slice_window_index[OF assms(1)] by metis
  obtain est_b where est_b: "slice_window bench anchor (estimation windows) = Inr est_b"
    and est_b_idx: "map fst est_b = date_range (anchor + fst (estimation windows) * hour)
                      (anchor + snd (estimation windows) * hour)"
    using slice_window_index[OF assms(2)] by metis
  obtain ev_t where ev_t: "slice_window target_rets anchor (event windows) = Inr ev_t"
    and ev_t_idx: "map fst ev_t = date_range (anchor + fst (event windows) * hour)
                     (anchor + snd (event windows) * hour)"
    and ev_t_len: "length ev_t = nat (snd (event windows) - fst (event windows) + 1)"
    using slice_window_index[OF assms(1)] by metis
  obtain ev_b where ev_b: "slice_window bench anchor (event windows) = Inr ev_b"
    and ev_b_idx: "map fst ev_b = date_range (anchor + fst (event windows) * hour)
                     (anchor + snd (event windows) * hour)"
    and ev_b_len: "length ev_b = nat (snd (event windows) - fst (event windows) + 1)"
    using slice_window_index[OF assms(2)] by metis
  have d1: "distinct (map fst est_b)" using est_b_idx distinct_date_range by simp
  have d2: "distinct (map fst (dropna est))"
    using est_idx distinct_date_range distinct_dropna by simp
  have "case ols_alpha_beta np est_b (dropna est) of
            Inl e \<Rightarrow> market_model_ar np target_rets (Some bench) anchor windows = Inl e
          | Inr ab \<Rightarrow>
              (\<exists>abn. market_model_ar np target_rets (Some bench) anchor windows
                       = Inr (abn, fst ab, snd ab)
                  \<and> length abn = nat (snd (event windows) - fst (event windows) + 1))"
  proof (cases "ols_alpha_beta np est_b (dropna est)")
    case (Inl e)
    then show ?thesis by (simp add: market_model_ar_def est est_b Let_def)
  next
    case (Inr ab)
    let ?fitted = "map (\<lambda>r. (fst r, fadd (fst ab) (fmul (snd ab) (snd r)))) ev_b"
    have same: "map fst ev_t = map fst ?fitted" using ev_t_idx ev_b_idx by (simp add: comp_def)
    have sub: "series_sub ev_t ?fitted
                 = Inr (map2 (\<lambda>r q. (fst r, fsub (snd r) (snd q))) ev_t ?fitted)"
      using series_sub_same_index[OF same] .
    have "market_model_ar np target_rets (Some bench) anchor windows
            = Inr (map2 (\<lambda>r q. (fst r, fsub (snd r) (snd q))) ev_t ?fitted, fst ab, snd ab)"
      by (simp add: market_model_ar_def est est_b Inr ev_t ev_b sub Let_def)
    then show ?thesis using Inr ev_t_len ev_b_len by simp
  qed
  then show ?thesis using est est_b d1 d2 by blast
qed

text \<open>
  An error of the single-event estimator on series with unique timestamps is an error of
  the least-squares routine, and there is none when the routine meets its contract and
  the series hold no infinity.
\<close>

lemma market_model_ar_outcome:
  assumes "distinct (map fst target_rets)"
    and "case bench_rets of None \<Rightarrow> True | Some b \<Rightarrow> distinct (map fst b)"
  shows "(\<exists>abn a b. market_model_ar np target_rets bench_rets anchor windows = Inr (abn, a, b)
            \<and> length abn = nat (snd (event windows) - fst (event windows) + 1))
       \<or> (\<exists>e. bench_rets \<noteq> None \<and> lstsq_error np e
            \<and> market_model_ar np target_rets bench_rets anchor windows = Inl e)"
proof (cases bench_rets)
  case None
  obtain ev where ev: "slice_window target_rets anchor (event windows) = Inr ev"
    and len: "length ev = nat (snd (event windows) - fst (event windows) + 1)"
    using slice_window_index[OF assms(1)] by metis
  from market_model_ar_no_benchmark[OF assms(1), of anchor windows np] ev len
  show ?thesis unfolding None by auto
next
  case (Some bench)
  then have db: "distinct (map fst bench)" using assms(2) by simp
  obtain est est_b where d1: "distinct (map fst est_b)" and d2: "distinct (map fst (dropna est))"
    and c: "case ols_alpha_beta np est_b (dropna est) of
            Inl e \<Rightarrow> market_model_ar np target_rets (Some bench) anchor windows = Inl e
          | Inr ab \<Rightarrow>
              (\<exists>abn. market_model_ar np target_rets (Some bench) anchor windows
                       = Inr (abn, fst ab, snd ab)
                  \<and> length abn = nat (snd (event windows) - fst (event windows) + 1))"
    using market_model_ar_benchmark[OF assms(1) db, of anchor windows np] by blast
  show ?thesis
    using ols_alpha_beta_outcome[OF d1 d2, of np] c unfolding Some
    by (auto split: sum.splits)
qed

lemma market_model_ar_finite:
  assumes "distinct (map fst target_rets)"
    and "case bench_rets of None \<Rightarrow> True | Some b \<Rightarrow> distinct (map fst b) \<and> no_infinity b"
    and "bench_rets \<noteq> None \<longrightarrow> lstsq_contract np \<and> no_infinity target_rets"
  shows "\<exists>abn a b. market_model_ar np target_rets bench_rets anchor windows = Inr (abn, a, b)"
proof (cases bench_rets)
  case None
  then show ?thesis using market_model_ar_no_benchmark[OF assms(1), of anchor windows np] by auto
next
  case (Some bench)
  then have db: "distinct (map fst bench)" and nb: "no_infinity bench"
    and con: "lstsq_contract np" and nt: "no_infinity target_rets"
    using assms(2,3) by simp_all
  obtain est est_b where est: "slice_window target_rets anchor (estimation windows) = Inr est"
    and est_b: "slice_window bench anchor (estimation windows) = Inr est_b"
    and d1: "distinct (map fst est_b)" and d2: "distinct (map fst (dropna est))"
    and c: "case ols_alpha_beta np est_b (dropna est) of
            Inl e \<Rightarrow> market_model_ar np target_rets (Some bench) anchor windows = Inl e
          | Inr ab \<Rightarrow>
              (\<exists>abn. market_model_ar np target_rets (Some bench) anchor windows
                       = Inr (abn, fst ab, snd ab)
                  \<and> length abn = nat (snd (event windows) - fst (event windows) + 1))"
    using market_model_ar_benchmark[OF assms(1) db, of anchor windows np] by blast
  have n1: "no_infinity est_b" using no_infinity_slice_window[OF nb est_b] .
  have n2: "no_infinity (dropna est)"
    using no_infinity_dropna[OF no_infinity_slice_window[OF nt est]] .
  obtain ab where "ols_alpha_beta np est_b (dropna est) = Inr ab"
    using ols_alpha_beta_finite[OF d1 d2 con n1 n2] by blast
  then show ?thesis using c unfolding Some by auto
qed

lemma market_model_ar_length:
  assumes "distinct (map fst target_rets)"
    and "case bench_rets of None \<Rightarrow> True | Some b \<Rightarrow> distinct (map fst b)"
    and "market_model_ar np target_rets bench_rets anchor windows = Inr (abn, a, b)"
  shows "length abn = nat (snd (event windows) - fst (event windows) + 1)"
  using market_model_ar_outcome[OF assms(1,2), of np anchor windows] assms(3) by auto

lemma market_model_ar_None_beta:
  "market_model_ar np s None t w = Inr (abn, a, b) \<Longrightarrow> b = Fin 0"
  unfolding market_model_ar_def Let_def by (auto split: sum.splits)

text \<open>The body of the loop, the loop, and the aggregation.\<close>

lemma bootstrap_car_ci_guarded:
  assumes "length est > full_len + 10" and "1 \<le> n"
  shows "\<exists>ci. bootstrap_car_ci np proc est (int full_len) n 42 = Inr ci"
proof -
  have "[0..<nat n] \<noteq> []" using assms(2) by simp
  then show ?thesis using assms
    by (simp add: bootstrap_car_ci_def default_rng_def rng_integers_def unpack_percentiles_def)
qed

lemma event_result_Inr:
  assumes "event_result np proc cfg windows symbol sym_ret bench_ret row = Inr r"
  shows "market_model_ar np sym_ret bench_ret (ev_ts_utc row) windows
           = Inr (res_ar r, res_alpha r, res_beta r)
       \<and> res_car r = series_cumsum (res_ar r) \<and> res_event_id r = ev_event_id row
       \<and> res_symbol r = symbol \<and> res_t0 r = ev_ts_utc row"
  using assms unfolding event_result_def
  by (auto split: sum.splits prod.splits if_splits)

lemma event_result_outcome:
  assumes "distinct (map fst sym_ret)" and "use_bootstrap cfg \<longrightarrow> 1 \<le> n_boot cfg"
  shows "case market_model_ar np sym_ret bench_ret (ev_ts_utc row) windows of
           Inl e \<Rightarrow> event_result np proc cfg windows symbol sym_ret bench_ret row = Inl e
         | Inr m \<Rightarrow> (\<exists>r. event_result np proc cfg windows symbol sym_ret bench_ret row = Inr r)"
proof (cases "market_model_ar np sym_ret bench_ret (ev_ts_utc row) windows")
  case (Inl e)
  then show ?thesis by (simp add: event_result_def)
next
  case (Inr m)
  obtain abn a b where m: "m = (abn, a, b)" by (cases m)
  note mm = Inr[unfolded m]
  obtain est where est: "slice_window sym_ret (ev_ts_utc row) (estimation windows) = Inr est"
    using slice_window_index[OF assms(1)] by metis
  have "\<exists>r. event_result np proc cfg windows symbol sym_ret bench_ret row = Inr r"
  proof (cases "use_bootstrap cfg")
    case False
    then show ?thesis by (simp add: event_result_def mm)
  next
    case True
    then have n: "1 \<le> n_boot cfg" using assms(2) by simp
    show ?thesis
    proof (cases "length (dropna abn) > 3 \<and> length (dropna est) > length (dropna abn) + 10")
      case False
      then show ?thesis using True by (auto simp: event_result_def mm est Let_def)
    next
      case g: True
      then obtain ci where "bootstrap_car_ci np proc (dropna est) (int (length (dropna abn)))
                              (n_boot cfg) 42 = Inr ci"
        using bootstrap_car_ci_guarded[of "length (dropna abn)" "dropna est" "n_boot cfg" np proc] n
        by blast
      then show ?thesis using True g by (simp add: event_result_def mm est Let_def)
    qed
  qed
  then show ?thesis using Inr by simp
qed

lemma per_event_loop_no_match:
  "\<forall>row\<in>set rows. ev_symbol row \<noteq> symbol \<Longrightarrow>
   per_event_loop np proc cfg windows symbol sym_ret bench_ret rows = Inr []"
  by (induction rows) simp_all

lemma per_event_loop_results:
  "per_event_loop np proc cfg windows symbol sym_ret bench_ret rows = Inr rs \<Longrightarrow>
   list_all2 (\<lambda>row r. event_result np proc cfg windows symbol sym_ret bench_ret row = Inr r)
     (filter (\<lambda>row. ev_symbol row = symbol) rows) rs"
proof (induction rows arbitrary: rs)
  case Nil
  then show ?case by simp
next
  case (Cons row rows)
  then show ?case by (auto split: if_splits sum.splits)
qed

lemma per_event_loop_error:
  "per_event_loop np proc cfg windows symbol sym_ret bench_ret rows = Inl e \<Longrightarrow>
   \<exists>row\<in>set rows. ev_symbol row = symbol
      \<and> event_result np proc cfg windows symbol sym_ret bench_ret row = Inl e"
proof (induction rows)
  case Nil
  then show ?case by simp
next
  case (Cons row rows)
  then show ?case by (auto split: if_splits sum.splits)
qed

lemma foldr_max_const:
  "\<forall>x\<in>set xs. x = (n::nat) \<Longrightarrow> foldr max xs 0 = (if xs = [] then 0 else n)"
  by (induction xs) (auto simp: max_def)

lemma length_aligned_rows:
  assumes "results \<noteq> []" and "\<forall>e\<in>set results. length (res_ar e) = n"
  shows "length (aligned_rows (map (\<lambda>e. map snd (res_ar e)) results)) = n"
proof -
  have "foldr max (map length (map (\<lambda>e. map snd (res_ar e)) results)) 0 = n"
    using assms foldr_max_const[of "map length (map (\<lambda>e. map snd (res_ar e)) results)" n] by auto
  then show ?thesis by (simp add: aligned_rows_def)
qed

lemma aggregate_Inr:
  assumes "aggregate np windows results = Inr res"
  shows "agg_per_event res = results
       \<and> agg_car_ci res = (if 5 \<le> length (filter (\<lambda>v. \<not> isna v) (map final_car results))
                           then nanpercentile np (filter (\<lambda>v. \<not> isna v) (map final_car results))
                           else (NaN, NaN))
       \<and> map fst (agg_mean_ar res) = [fst (event windows)..snd (event windows)]
       \<and> agg_mean_car res = series_cumsum (agg_mean_ar res)"
  using assms unfolding aggregate_def Let_def by (auto split: if_splits)

lemma aggregate_total:
  assumes "results \<noteq> []"
    and "\<forall>e\<in>set results. length (res_ar e) = nat (snd (event windows) - fst (event windows) + 1)"
  shows "\<exists>res. aggregate np windows results = Inr res"
proof -
  have "length (aligned_rows (map (\<lambda>e. map snd (res_ar e)) results))
          = nat (snd (event windows) - fst (event windows) + 1)"
    using length_aligned_rows[OF assms] .
  then show ?thesis by (simp add: aggregate_def Let_def)
qed

text \<open>The run as a whole.\<close>


lemma ensure_symbol_frame_ok:
  "has_price_columns df \<Longrightarrow>
   ensure_symbol_frame df symbol
     = Inr (df\<lparr>pf_rows := filter (\<lambda>r. p_symbol r = symbol) (pf_rows df)\<rparr>)"
  by (simp add: ensure_symbol_frame_def has_price_columns_def Let_def)

lemma ensure_symbol_frame_no_symbol:
  "''symbol'' \<notin> set (pf_columns df) \<Longrightarrow>
   ensure_symbol_frame df symbol
     = Inl (ValueError ''Input prices DataFrame must have a symbol column.'')"
  by (simp add: ensure_symbol_frame_def)

lemma ensure_symbol_frame_missing_column:
  "''symbol'' \<in> set (pf_columns df) \<Longrightarrow>
   \<not> list_all (\<lambda>c. c \<in> set (pf_columns df)) [''open'', ''high'', ''low'', ''close''] \<Longrightarrow>
   ensure_symbol_frame df symbol = Inl (ValueError (''Missing columns for '' @ symbol))"
  by (auto simp: ensure_symbol_frame_def Let_def)

lemma close_column_distinct:
  "unique_timestamps df symbol \<Longrightarrow>
   distinct (map fst (close_column (df\<lparr>pf_rows := filter (\<lambda>r. p_symbol r = symbol) (pf_rows df)\<rparr>)))"
  by (simp add: unique_timestamps_def close_column_def comp_def)

lemma close_column_positive:
  "positive_closes df symbol \<Longrightarrow>
   no_infinity (to_returns (close_column (df\<lparr>pf_rows := filter (\<lambda>r. p_symbol r = symbol) (pf_rows df)\<rparr>)))"
  by (rule no_infinity_to_returns) (simp add: positive_closes_def close_column_def list_all_iff)

lemma bench_returns_fallback:
  "benchmark cfg = Some symbol \<or> bench_prices = None \<or> \<not> truthy (benchmark cfg) \<Longrightarrow>
   bench_returns cfg symbol bench_prices = Inr None"
  by (auto simp: bench_returns_def)

lemma bench_returns_unused:
  "\<not> uses_benchmark cfg symbol bench_prices \<Longrightarrow> bench_returns cfg symbol bench_prices = Inr None"
  unfolding bench_returns_def uses_benchmark_def by (simp only: if_False)

lemma bench_returns_used:
  assumes "well_formed_inputs prices symbol bench_prices cfg"
    and "uses_benchmark cfg symbol bench_prices"
  shows "\<exists>bp b. bench_prices = Some bp \<and> benchmark cfg = Some b
     \<and> bench_returns cfg symbol bench_prices
         = Inr (Some (to_returns (close_column (bp\<lparr>pf_rows := filter (\<lambda>r. p_symbol r = b) (pf_rows bp)\<rparr>))))
     \<and> distinct (map fst (to_returns (close_column (bp\<lparr>pf_rows := filter (\<lambda>r. p_symbol r = b) (pf_rows bp)\<rparr>))))"
proof -
  obtain bp b where bp: "bench_prices = Some bp" and b: "benchmark cfg = Some b"
    and ne: "b \<noteq> []" "b \<noteq> symbol"
    using assms(2) by (auto simp: uses_benchmark_def truthy_def split: option.splits)
  then have cols: "has_price_columns bp" and uniq: "unique_timestamps bp b"
    using assms(1) by (auto simp: well_formed_inputs_def)
  have "bench_returns cfg symbol bench_prices
          = Inr (Some (to_returns (close_column (bp\<lparr>pf_rows := filter (\<lambda>r. p_symbol r = b) (pf_rows bp)\<rparr>))))"
    using assms(2) by (simp add: bench_returns_def uses_benchmark_def bp b ensure_symbol_frame_ok[OF cols])
  then show ?thesis using bp b to_returns_distinct[OF close_column_distinct[OF uniq]] by blast
qed

lemma run_event_study_no_match:
  assumes "filter (\<lambda>row. ev_symbol row = symbol) events = []"
  shows "\<exists>e. run_event_study np proc prices events symbol bench_prices cfg_opt windows_opt = Inl e"
proof -
  have "\<forall>row\<in>set events. ev_symbol row \<noteq> symbol" using assms by (auto simp: filter_empty_conv)
  then have loop: "\<And>cfg w sr br. per_event_loop np proc cfg w symbol sr br events = Inr []"
    by (rule per_event_loop_no_match)
  show ?thesis
    by (auto simp: run_event_study_def Let_def loop split: sum.splits)
qed

text \<open>
  On well-formed input the run comes down to the loop over the events, on return series
  with unique timestamps, followed by the aggregation.
\<close>

lemma run_event_study_unfold:
  assumes wf: "well_formed_inputs prices symbol bench_prices cfg"
  shows "\<exists>sym_ret bench_ret.
      sym_ret = to_returns (close_column (prices\<lparr>pf_rows := filter (\<lambda>r. p_symbol r = symbol) (pf_rows prices)\<rparr>))
    \<and> distinct (map fst sym_ret)
    \<and> bench_returns cfg symbol bench_prices = Inr bench_ret
    \<and> (case bench_ret of None \<Rightarrow> True | Some b \<Rightarrow> distinct (map fst b))
    \<and> (bench_ret \<noteq> None \<longrightarrow> uses_benchmark cfg symbol bench_prices)
    \<and> run_event_study np proc prices events symbol bench_prices (Some cfg) (Some windows)
        = (case per_event_loop np proc cfg windows symbol sym_ret bench_ret events of
             Inl e \<Rightarrow> Inl e
           | Inr rs \<Rightarrow> if rs = [] then Inl (ValueError (''No events for '' @ symbol))
                       else aggregate np windows rs)"
proof -
  let ?sub = "prices\<lparr>pf_rows := filter (\<lambda>r. p_symbol r = symbol) (pf_rows prices)\<rparr>"
  let ?ret = "to_returns (close_column ?sub)"
  have cols: "has_price_columns prices" and uniq: "unique_timestamps prices symbol"
    using wf by (auto simp: well_formed_inputs_def)
  have ens: "ensure_symbol_frame prices symbol = Inr ?sub" using ensure_symbol_frame_ok[OF cols] .
  have dret: "distinct (map fst ?ret)" using to_returns_distinct[OF close_column_distinct[OF uniq]] .
  obtain bench_ret where br: "bench_returns cfg symbol bench_prices = Inr bench_ret"
    and brd: "case bench_ret of None \<Rightarrow> True | Some b \<Rightarrow> distinct (map fst b)"
    and bru: "bench_ret \<noteq> None \<longrightarrow> uses_benchmark cfg symbol bench_prices"
  proof (cases "uses_benchmark cfg symbol bench_prices")
    case True
    then show ?thesis using bench_returns_used[OF wf True] that by fastforce
  next
    case False
    then show ?thesis using bench_returns_unused[OF False] that by fastforce
  qed
  have "run_event_study np proc prices events symbol bench_prices (Some cfg) (Some windows)
        = (case per_event_loop np proc cfg windows symbol ?ret bench_ret events of
             Inl e \<Rightarrow> Inl e
           | Inr rs \<Rightarrow> if rs = [] then Inl (ValueError (''No events for '' @ symbol))
                       else aggregate np windows rs)"
    by (simp add: run_event_study_def ens br cong: sum.case_cong)
  then show ?thesis using dret br brd bru by blast
qed

text \<open>
  When the loop returns, the per-event results are those of the matching events, in
  their order, and the aggregation succeeds.
\<close>

lemma run_event_study_results:
  assumes "distinct (map fst sym_ret)"
    and "case bench_ret of None \<Rightarrow> True | Some b \<Rightarrow> distinct (map fst b)"
    and "per_event_loop np proc cfg windows symbol sym_ret bench_ret events = Inr rs"
    and "filter (\<lambda>row. ev_symbol row = symbol) events \<noteq> []"
  shows "\<exists>res. aggregate np windows rs = Inr res \<and> rs \<noteq> [] \<and> agg_per_event res = rs"
proof -
  note l2 = per_event_loop_results[OF assms(3)]
  have "length rs = length (filter (\<lambda>row. ev_symbol row = symbol) events)"
    using l2 by (simp add: list_all2_lengthD)
  then have ne: "rs \<noteq> []" using assms(4) by auto
  have lens: "\<forall>e\<in>set rs. length (res_ar e) = nat (snd (event windows) - fst (event windows) + 1)"
  proof
    fix e assume "e \<in> set rs"
    then obtain row where "event_result np proc cfg windows symbol sym_ret bench_ret row = Inr e"
      using l2 by (auto simp: list_all2_conv_all_nth in_set_conv_nth)
    then have mm: "market_model_ar np sym_ret bench_ret (ev_ts_utc row) windows
                   = Inr (res_ar e, res_alpha e, res_beta e)"
      using event_result_Inr by blast
    show "length (res_ar e) = nat (snd (event windows) - fst (event windows) + 1)"
      using market_model_ar_length[OF assms(1,2) mm] .
  qed
  obtain res where res: "aggregate np windows rs = Inr res"
    using aggregate_total[OF ne lens] by blast
  then show ?thesis using ne aggregate_Inr[OF res] by blast
qed

text \<open>
  The outcomes of a run on well-formed input: the error for no event; otherwise a
  result, or an error of the least-squares routine when a benchmark is fitted.
\<close>

lemma run_event_study_outcome:
  assumes wf: "well_formed_inputs prices symbol bench_prices cfg"
  shows "(filter (\<lambda>row. ev_symbol row = symbol) events = [] \<longrightarrow>
            run_event_study np proc prices events symbol bench_prices (Some cfg) (Some windows)
              = Inl (ValueError (''No events for '' @ symbol)))
       \<and> (filter (\<lambda>row. ev_symbol row = symbol) events \<noteq> [] \<longrightarrow>
            (\<exists>res. run_event_study np proc prices events symbol bench_prices (Some cfg) (Some windows)
                     = Inr res)
            \<or> (\<exists>e. uses_benchmark cfg symbol bench_prices \<and> lstsq_error np e
                 \<and> run_event_study np proc prices events symbol bench_prices (Some cfg) (Some windows)
                     = Inl e))"
proof -
  obtain sym_ret bench_ret where dret: "distinct (map fst sym_ret)"
    and brd: "case bench_ret of None \<Rightarrow> True | Some b \<Rightarrow> distinct (map fst b)"
    and bru: "bench_ret \<noteq> None \<longrightarrow> uses_benchmark cfg symbol bench_prices"
    and run: "run_event_study np proc prices events symbol bench_prices (Some cfg) (Some windows)
        = (case per_event_loop np proc cfg windows symbol sym_ret bench_ret events of
             Inl e \<Rightarrow> Inl e
           | Inr rs \<Rightarrow> if rs = [] then Inl (ValueError (''No events for '' @ symbol))
                       else aggregate np windows rs)"
    using run_event_study_unfold[OF wf, of np proc events windows] by blast
  have nb: "use_bootstrap cfg \<longrightarrow> 1 \<le> n_boot cfg" using wf by (simp add: well_formed_inputs_def)
  have none: "run_event_study np proc prices events symbol bench_prices (Some cfg) (Some windows)
              = Inl (ValueError (''No events for '' @ symbol))"
    if "filter (\<lambda>row. ev_symbol row = symbol) events = []"
  proof -
    have "\<forall>row\<in>set events. ev_symbol row \<noteq> symbol" using that by (auto simp: filter_empty_conv)
    then show ?thesis using per_event_loop_no_match[of events symbol] run by simp
  qed
  have some: "(\<exists>res. run_event_study np proc prices events symbol bench_prices (Some cfg) (Some windows)
                     = Inr res)
            \<or> (\<exists>e. uses_benchmark cfg symbol bench_prices \<and> lstsq_error np e
                 \<and> run_event_study np proc prices events symbol bench_prices (Some cfg) (Some windows)
                     = Inl e)"
    if m: "filter (\<lambda>row. ev_symbol row = symbol) events \<noteq> []"
  proof (cases "per_event_loop np proc cfg windows symbol sym_ret bench_ret events")
    case (Inr rs)
    obtain res where "aggregate np windows rs = Inr res" and "rs \<noteq> []"
      using run_event_study_results[OF dret brd Inr m] by blast
    then show ?thesis using run Inr by simp
  next
    case (Inl e)
    then obtain row where er: "event_result np proc cfg windows symbol sym_ret bench_ret row = Inl e"
      using per_event_loop_error by blast
    have mm: "market_model_ar np sym_ret bench_ret (ev_ts_utc row) windows = Inl e"
      using event_result_outcome[OF dret nb, where np=np and bench_ret=bench_ret and row=row
            and windows=windows and proc=proc and symbol=symbol] er
      by (auto split: sum.splits)
    then have "bench_ret \<noteq> None \<and> lstsq_error np e"
      using market_model_ar_outcome[OF dret brd, of np "ev_ts_utc row" windows] by auto
    then show ?thesis using bru run Inl by simp
  qed
  show ?thesis using none some by blast
qed

text \<open>
  With positive prices and a least-squares routine that meets its contract, or with no
  benchmark in use, a run on well-formed input with a matching event returns.
\<close>

lemma run_event_study_returns:
  assumes wf: "well_formed_inputs prices symbol bench_prices cfg"
    and m: "filter (\<lambda>row. ev_symbol row = symbol) events \<noteq> []"
    and ok: "\<not> uses_benchmark cfg symbol bench_prices
             \<or> (lstsq_contract np \<and> positive_closes prices symbol
                 \<and> (case (bench_prices, benchmark cfg) of
                       (Some bp, Some b) \<Rightarrow> positive_closes bp b | _ \<Rightarrow> True))"
  shows "\<exists>res. run_event_study np proc prices events symbol bench_prices (Some cfg) (Some windows)
                 = Inr res"
proof -
  let ?ret = "to_returns (close_column (prices\<lparr>pf_rows := filter (\<lambda>r. p_symbol r = symbol) (pf_rows prices)\<rparr>))"
  obtain bench_ret where dret: "distinct (map fst ?ret)"
    and br: "bench_returns cfg symbol bench_prices = Inr bench_ret"
    and brd: "case bench_ret of None \<Rightarrow> True | Some b \<Rightarrow> distinct (map fst b)"
    and bru: "bench_ret \<noteq> None \<longrightarrow> uses_benchmark cfg symbol bench_prices"
    and run: "run_event_study np proc prices events symbol bench_prices (Some cfg) (Some windows)
        = (case per_event_loop np proc cfg windows symbol ?ret bench_ret events of
             Inl e \<Rightarrow> Inl e
           | Inr rs \<Rightarrow> if rs = [] then Inl (ValueError (''No events for '' @ symbol))
                       else aggregate np windows rs)"
    using run_event_study_unfold[OF wf, of np proc events windows] by blast
  have nb: "use_bootstrap cfg \<longrightarrow> 1 \<le> n_boot cfg" using wf by (simp add: well_formed_inputs_def)
  have fin: "case bench_ret of None \<Rightarrow> True | Some b \<Rightarrow> distinct (map fst b) \<and> no_infinity b"
    and con: "bench_ret \<noteq> None \<longrightarrow> lstsq_contract np \<and> no_infinity ?ret"
  proof -
    show "case bench_ret of None \<Rightarrow> True | Some b \<Rightarrow> distinct (map fst b) \<and> no_infinity b"
    proof (cases bench_ret)
      case None
      then show ?thesis by simp
    next
      case (Some b)
      then have u: "uses_benchmark cfg symbol bench_prices" using bru by simp
      obtain bp bn where bp: "bench_prices = Some bp" and bn: "benchmark cfg = Some bn"
        and e: "bench_returns cfg symbol bench_prices
         = Inr (Some (to_returns (close_column (bp\<lparr>pf_rows := filter (\<lambda>r. p_symbol r = bn) (pf_rows bp)\<rparr>))))"
        using bench_returns_used[OF wf u] by blast
      have "positive_closes bp bn" using ok u bp bn by simp
      then have "no_infinity b" using close_column_positive e br Some by simp
      then show ?thesis using brd Some by simp
    qed
    show "bench_ret \<noteq> None \<longrightarrow> lstsq_contract np \<and> no_infinity ?ret"
      using ok bru close_column_positive by blast
  qed
  have "\<exists>rs. per_event_loop np proc cfg windows symbol ?ret bench_ret events = Inr rs"
  proof (cases "per_event_loop np proc cfg windows symbol ?ret bench_ret events")
    case (Inr rs)
    then show ?thesis by simp
  next
    case (Inl e)
    then obtain row where er: "event_result np proc cfg windows symbol ?ret bench_ret row = Inl e"
      using per_event_loop_error by blast
    have "market_model_ar np ?ret bench_ret (ev_ts_utc row) windows = Inl e"
      using event_result_outcome[OF dret nb, where np=np and bench_ret=bench_ret and row=row
            and windows=windows and proc=proc and symbol=symbol] er
      by (auto split: sum.splits)
    then show ?thesis
      using market_model_ar_finite[OF dret fin con, of "ev_ts_utc row" windows] by simp
  qed
  then obtain rs where rs: "per_event_loop np proc cfg windows symbol ?ret bench_ret events = Inr rs"
    by blast
  obtain res where "aggregate np windows rs = Inr res" and "rs \<noteq> []"
    using run_event_study_results[OF dret brd rs m] by blast
  then show ?thesis using run rs by simp
qed

section \<open>The example run\<close>

text \<open>
  The steps of the aggregator on the example price table, evaluated once: the rows of
  ALT, their returns, and the loop over the events followed by the aggregation.
\<close>

lemma example_ensure: "ensure_symbol_frame example_prices ''ALT'' = Inr alt_frame"
  by (simp add: ensure_symbol_frame_def example_prices_def alt_frame_def alt_row_def btc_row_def)

lemma example_returns: "to_returns (close_column alt_frame) = alt_returns"
  by (simp add: to_returns_def close_column_def alt_frame_def alt_row_def series_diff_def
        dropna_def isna_def fsub_def alt_returns_def)

lemma example_run:
  assumes "bench_returns cfg ''ALT'' bench_prices = Inr None"
  shows "run_event_study np proc example_prices events ''ALT'' bench_prices (Some cfg) (Some w)
     = (case per_event_loop np proc cfg w ''ALT'' alt_returns None events of
          Inl e \<Rightarrow> Inl e
        | Inr rs \<Rightarrow> if rs = [] then Inl (ValueError ''No events for ALT'')
                    else aggregate np w rs)"
  by (simp add: run_event_study_def example_ensure example_returns assms split: sum.splits)

lemma example_six:
  "case per_event_loop example_numpy process_a no_bootstrap small_windows ''ALT'' alt_returns None six_events of
     Inl e \<Rightarrow> False
   | Inr rs \<Rightarrow> rs \<noteq> [] \<and> (case aggregate example_numpy small_windows rs of Inl e \<Rightarrow> False
        | Inr res \<Rightarrow> terminal_cars (agg_per_event res) = [Fin 4, Fin 11, Fin 12, Fin 11, Fin (- (1 / 2))]
            \<and> agg_car_ci res = (Fin (- (1 / 20)), Fin (119 / 10)))"
  by code_simp

lemma example_three:
  "case per_event_loop example_numpy process_a no_bootstrap small_windows ''ALT'' alt_returns None three_events of
     Inl e \<Rightarrow> False
   | Inr rs \<Rightarrow> rs \<noteq> [] \<and> (case aggregate example_numpy small_windows rs of Inl e \<Rightarrow> False
        | Inr res \<Rightarrow> terminal_cars (agg_per_event res) = [Fin 4, Fin 11]
            \<and> agg_car_ci res = (NaN, NaN))"
  by code_simp

section \<open>Properties of the single-event estimator\<close>

lemma foldl_fadd_finite: "list_all is_fin vs \<Longrightarrow> is_fin (foldl fadd (Fin a) vs)"
proof (induction vs arbitrary: a)
  case Nil
  then show ?case by simp
next
  case (Cons v vs)
  then obtain b where "v = Fin b" by (cases v) auto
  then show ?case using Cons by simp
qed

lemma series_sum_finite: "no_infinity s \<Longrightarrow> is_fin (series_sum s)"
proof -
  assume s: "no_infinity s"
  have "is_fin (snd r)" if "r \<in> set (dropna s)" for r
  proof -
    have m: "r \<in> set s" and n: "snd r \<noteq> NaN" using that by (simp_all add: dropna_def isna_def)
    show ?thesis using no_infinity_mem[OF s m] n by (simp add: fl_is_fin)
  qed
  then have "list_all is_fin (map snd (dropna s))" by (simp add: list_all_iff)
  then show ?thesis unfolding series_sum_def by (rule foldl_fadd_finite)
qed

lemma no_infinity_take: "no_infinity s \<Longrightarrow> no_infinity (take n s)"
  by (auto simp: no_infinity_def list_all_iff dest: in_set_takeD)

text \<open>
  Claim C4, as the code has it. The cumulative abnormal return of every per-event result
  is the cumulative sum of its abnormal returns, with pandas' default of skipping missing
  values: it keeps the index of the abnormal returns, is missing at every row where the
  abnormal return is missing, and at every other row is the sum of the abnormal returns
  up to and including that row, the missing ones left out. A gap does not make the later
  rows missing: when no abnormal return is infinite, the cumulative abnormal return is
  missing at the rows where the abnormal return is missing and at no other row.
\<close>

theorem series_cumsum_skips_missing:
  "(event_result np proc cfg windows symbol sym_ret bench_ret row = Inr r
      \<longrightarrow> res_car r = series_cumsum (res_ar r))
   \<and> map fst (series_cumsum s) = map fst s
   \<and> (\<forall>i<length s. snd (series_cumsum s ! i)
          = (if isna (snd (s ! i)) then NaN else series_sum (take (Suc i) s)))
   \<and> (no_infinity s \<longrightarrow>
        (\<forall>i<length s. isna (snd (series_cumsum s ! i)) \<longleftrightarrow> isna (snd (s ! i))))"
proof -
  have car: "res_car r = series_cumsum (res_ar r)"
    if "event_result np proc cfg windows symbol sym_ret bench_ret row = Inr r"
    using event_result_Inr[OF that] by simp
  have idx: "map fst (series_cumsum s) = map fst s"
    by (simp add: series_cumsum_def list_eq_iff_nth_eq)
  have val: "snd (series_cumsum s ! i)
          = (if isna (snd (s ! i)) then NaN else series_sum (take (Suc i) s))"
    if i: "i < length s" for i
  proof -
    let ?m = "map (\<lambda>r. if isna (snd r) then Fin 0 else snd r) s"
    have "np_cumsum (Fin 0) ?m ! i = foldl fadd (Fin 0) (take (Suc i) ?m)"
      using i by (simp add: np_cumsum_nth)
    also have "\<dots> = foldl fadd (Fin 0)
                      (map (\<lambda>r. if isna (snd r) then Fin 0 else snd r) (take (Suc i) s))"
      by (simp add: take_map)
    also have "\<dots> = series_sum (take (Suc i) s)"
      by (simp add: foldl_masked series_sum_def)
    finally have c: "np_cumsum (Fin 0) ?m ! i = series_sum (take (Suc i) s)" .
    show ?thesis using i c by (simp add: series_cumsum_def)
  qed
  have iff: "isna (snd (series_cumsum s ! i)) \<longleftrightarrow> isna (snd (s ! i))"
    if n: "no_infinity s" and i: "i < length s" for i
  proof -
    have "is_fin (series_sum (take (Suc i) s))"
      using series_sum_finite[OF no_infinity_take[OF n]] .
    then have "\<not> isna (series_sum (take (Suc i) s))"
      by (cases "series_sum (take (Suc i) s)") (simp_all add: isna_def)
    then show ?thesis using val[OF i] by (simp add: isna_def)
  qed
  show ?thesis using car idx val iff by blast
qed

theorem series_cumsum_skips_missing_witness:
  "(\<exists>r. event_result example_numpy process_a no_bootstrap small_windows ''ALT'' alt_returns None
           (event_at ''e2'' ''ALT'' 4) = Inr r
        \<and> res_ar r = gapped_ar \<and> res_car r = series_cumsum gapped_ar)
   \<and> no_infinity gapped_ar
   \<and> (2::nat) < length gapped_ar \<and> snd (series_cumsum gapped_ar ! 2) = Fin 11
   \<and> \<not> isna (snd (series_cumsum gapped_ar ! 2))
   \<and> snd (series_cumsum gapped_ar ! 1) = NaN"
proof -
  have "case event_result example_numpy process_a no_bootstrap small_windows ''ALT'' alt_returns
               None (event_at ''e2'' ''ALT'' 4) of
          Inl e \<Rightarrow> False | Inr r \<Rightarrow> res_ar r = gapped_ar"
    by code_simp
  then obtain r where r: "event_result example_numpy process_a no_bootstrap small_windows ''ALT''
        alt_returns None (event_at ''e2'' ''ALT'' 4) = Inr r" and ar: "res_ar r = gapped_ar"
    by (auto split: sum.splits)
  note t = series_cumsum_skips_missing[of example_numpy process_a no_bootstrap small_windows
             "''ALT''" alt_returns None "event_at ''e2'' ''ALT'' 4" r gapped_ar]
  have car: "res_car r = series_cumsum gapped_ar"
    using t[THEN conjunct1] r ar by simp
  have ni: "no_infinity gapped_ar" by (simp add: gapped_ar_def no_infinity_def)
  have l2: "(2::nat) < length gapped_ar" and l1: "(1::nat) < length gapped_ar"
    by (simp_all add: gapped_ar_def)
  note val = t[THEN conjunct2, THEN conjunct2, THEN conjunct1, rule_format]
  note iff = t[THEN conjunct2, THEN conjunct2, THEN conjunct2, rule_format]
  have "snd (series_cumsum gapped_ar ! 2) = Fin 11"
    using val[OF l2] by (simp add: gapped_ar_def series_sum_def dropna_def isna_def)
  moreover have "snd (series_cumsum gapped_ar ! 1) = NaN"
    using val[OF l1] by (simp add: gapped_ar_def isna_def)
  moreover have "\<not> isna (snd (series_cumsum gapped_ar ! 2))"
    using iff[OF ni l2] by (simp add: gapped_ar_def isna_def)
  ultimately show ?thesis using r ar car ni l2 by blast
qed

text \<open>
  The event at 04:00 of the example: the estimator's abnormal return is missing at 05:00
  (no bar at that hour), and the cumulative abnormal return is missing at 05:00 and
  defined again at 06:00.
\<close>

theorem series_cumsum_gap:
  "market_model_ar example_numpy alt_returns None 14400 small_windows
     = Inr (gapped_ar, Fin 2, Fin 0)
   \<and> series_cumsum gapped_ar = [(14400, Fin 2), (18000, NaN), (21600, Fin 11)]"
proof -
  have "market_model_ar example_numpy alt_returns None 14400 small_windows
          = Inr (gapped_ar, Fin 2, Fin 0)"
    by code_simp
  moreover have "series_cumsum gapped_ar = [(14400, Fin 2), (18000, NaN), (21600, Fin 11)]"
    by (simp add: gapped_ar_def series_cumsum_def isna_def)
  ultimately show ?thesis by simp
qed

text \<open>
  With opposite infinities among the abnormal returns the running sum itself becomes
  not-a-number, at rows where the abnormal return is not missing.
\<close>

lemma series_cumsum_infinities:
  "series_cumsum [(0, NInf), (3600, PInf), (7200, Fin 0)] = [(0, NInf), (3600, NaN), (7200, NaN)]"
  by (simp add: series_cumsum_def isna_def)

text \<open>
  Claim C9. Without a benchmark, on a return series with unique timestamps, the
  estimator slices the estimation and the event window, takes \<open>mu\<close> as the mean of the
  estimation-window returns that are not missing (their sum over their count; 0.0 when
  there is none), and returns the event-window returns minus \<open>mu\<close> as abnormal returns,
  \<open>mu\<close> as alpha and 0 as beta.
\<close>

theorem market_model_ar_mean_adjusted:
  assumes "distinct (map fst target_rets)"
  shows "\<exists>est ev mu. slice_window target_rets anchor (estimation windows) = Inr est
      \<and> slice_window target_rets anchor (event windows) = Inr ev
      \<and> mu = (if dropna est = [] then Fin 0
              else fdiv_count (series_sum est) (length (dropna est)))
      \<and> market_model_ar np target_rets None anchor windows
          = Inr (map (\<lambda>r. (fst r, fsub (snd r) mu)) ev, mu, Fin 0)"
  using market_model_ar_no_benchmark[OF assms] .

theorem market_model_ar_mean_adjusted_witness:
  "distinct (map fst alt_returns)
   \<and> market_model_ar example_numpy alt_returns None 14400 small_windows
       = Inr ([(14400, Fin 2), (18000, NaN), (21600, Fin 9)], Fin 2, Fin 0)"
proof -
  have d: "distinct (map fst alt_returns)" by (simp add: alt_returns_def)
  obtain est ev mu where est: "slice_window alt_returns 14400 (estimation small_windows) = Inr est"
    and ev: "slice_window alt_returns 14400 (event small_windows) = Inr ev"
    and mu: "mu = (if dropna est = [] then Fin 0
              else fdiv_count (series_sum est) (length (dropna est)))"
    and mm: "market_model_ar example_numpy alt_returns None 14400 small_windows
          = Inr (map (\<lambda>r. (fst r, fsub (snd r) mu)) ev, mu, Fin 0)"
    using market_model_ar_mean_adjusted[OF d, of 14400 small_windows example_numpy] by blast
  have e1: "slice_window alt_returns 14400 (estimation small_windows)
              = Inr [(3600, Fin 1), (7200, Fin 2), (10800, Fin 3)]" by code_simp
  have e2: "slice_window alt_returns 14400 (event small_windows)
              = Inr [(14400, Fin 4), (18000, NaN), (21600, Fin 11)]" by code_simp
  have est': "est = [(3600, Fin 1), (7200, Fin 2), (10800, Fin 3)]" using est e1 by simp
  have ev': "ev = [(14400, Fin 4), (18000, NaN), (21600, Fin 11)]" using ev e2 by simp
  have "mu = Fin 2" unfolding mu est' by (simp add: dropna_def isna_def series_sum_def)
  then show ?thesis using d mm ev' by (simp add: fsub_def)
qed

section \<open>Properties of the cross-event aggregator\<close>

lemma final_cars_terminal:
  "filter (\<lambda>v. \<not> isna v) (map final_car results) = terminal_cars results"
proof (induction results)
  case Nil
  then show ?case by (simp add: terminal_cars_def)
next
  case (Cons e results)
  show ?case
  proof (cases "dropna (res_car e) = []")
    case True
    then show ?thesis using Cons by (simp add: terminal_cars_def final_car_def isna_def)
  next
    case False
    then have "last (dropna (res_car e)) \<in> set (dropna (res_car e))" by simp
    then have "\<not> isna (snd (last (dropna (res_car e))))"
      by (simp add: dropna_def)
    then show ?thesis using Cons False by (simp add: terminal_cars_def final_car_def)
  qed
qed

lemma run_event_study_Inr:
  assumes "run_event_study np proc prices events symbol bench_prices cfg_opt windows_opt = Inr res"
  shows "\<exists>w rs. aggregate np w rs = Inr res \<and> rs \<noteq> []"
  using assms unfolding run_event_study_def Let_def
  by (auto split: sum.splits if_splits)

text \<open>
  Claim C8. Whenever the aggregator returns, its confidence interval is the pair of
  percentiles that numpy computes of the terminal CAR values of the per-event results
  (the last non-missing CAR of each event that has one) when there are at least five of
  them, and (NaN, NaN) when there are fewer.
\<close>

theorem aggregate_confidence_interval:
  assumes "run_event_study np proc prices events symbol bench_prices cfg_opt windows_opt = Inr res"
  shows "agg_car_ci res =
           (if 5 \<le> length (terminal_cars (agg_per_event res))
            then nanpercentile np (terminal_cars (agg_per_event res)) else (NaN, NaN))"
proof -
  obtain w rs where "aggregate np w rs = Inr res"
    using run_event_study_Inr[OF assms] by blast
  then show ?thesis using aggregate_Inr[of np w rs res] by (simp add: final_cars_terminal)
qed

theorem aggregate_confidence_interval_witness:
  "(\<exists>res. run_event_study example_numpy process_a example_prices six_events ''ALT'' None
             (Some no_bootstrap) (Some small_windows) = Inr res
          \<and> terminal_cars (agg_per_event res) = [Fin 4, Fin 11, Fin 12, Fin 11, Fin (- (1 / 2))]
          \<and> agg_car_ci res = nanpercentile example_numpy (terminal_cars (agg_per_event res))
          \<and> agg_car_ci res = (Fin (- (1 / 20)), Fin (119 / 10)))
   \<and> (\<exists>res. run_event_study example_numpy process_a example_prices three_events ''ALT'' None
             (Some no_bootstrap) (Some small_windows) = Inr res
          \<and> terminal_cars (agg_per_event res) = [Fin 4, Fin 11]
          \<and> agg_car_ci res = (NaN, NaN))"
proof -
  have br: "bench_returns no_bootstrap ''ALT'' None = Inr None"
    by (simp add: bench_returns_def)
  obtain res6 where r6: "run_event_study example_numpy process_a example_prices six_events ''ALT''
        None (Some no_bootstrap) (Some small_windows) = Inr res6"
    and t6: "terminal_cars (agg_per_event res6) = [Fin 4, Fin 11, Fin 12, Fin 11, Fin (- (1 / 2))]"
    and c6: "agg_car_ci res6 = (Fin (- (1 / 20)), Fin (119 / 10))"
    using example_six unfolding example_run[OF br] by (auto split: sum.splits)
  obtain res3 where r3: "run_event_study example_numpy process_a example_prices three_events ''ALT''
        None (Some no_bootstrap) (Some small_windows) = Inr res3"
    and t3: "terminal_cars (agg_per_event res3) = [Fin 4, Fin 11]"
    using example_three unfolding example_run[OF br] by (auto split: sum.splits)
  have a6: "agg_car_ci res6 = nanpercentile example_numpy (terminal_cars (agg_per_event res6))"
    using aggregate_confidence_interval[OF r6] t6 by simp
  have a3: "agg_car_ci res3 = (NaN, NaN)"
    using aggregate_confidence_interval[OF r3] t3 by simp
  show ?thesis using r6 t6 c6 a6 r3 t3 a3 by blast
qed

lemma event_result_benchmark_field:
  "event_result np proc (cfg\<lparr>benchmark := x\<rparr>) w symbol sr br row
     = event_result np proc cfg w symbol sr br row"
  by (simp add: event_result_def Let_def cong: sum.case_cong prod.case_cong if_cong)

lemma per_event_loop_benchmark_field:
  "per_event_loop np proc (cfg\<lparr>benchmark := x\<rparr>) w symbol sr br rows
     = per_event_loop np proc cfg w symbol sr br rows"
  by (induction rows) (simp_all add: event_result_benchmark_field cong: sum.case_cong)

lemma run_event_study_fallback:
  assumes "benchmark cfg = Some symbol \<or> bench_prices = None \<or> \<not> truthy (benchmark cfg)"
  shows "run_event_study np proc prices events symbol bench_prices (Some cfg) (Some w)
     = (case ensure_symbol_frame prices symbol of
          Inl e \<Rightarrow> Inl e
        | Inr sym_df \<Rightarrow>
            (case per_event_loop np proc cfg w symbol (to_returns (close_column sym_df)) None events of
               Inl e \<Rightarrow> Inl e
             | Inr rs \<Rightarrow> if rs = [] then Inl (ValueError (''No events for '' @ symbol))
                         else aggregate np w rs))"
  by (simp add: run_event_study_def bench_returns_fallback[OF assms] cong: sum.case_cong)

text \<open>
  Claim C10. When the benchmark symbol is the target symbol, or no benchmark prices are
  supplied, or the benchmark name is falsy, the run is the run of the same configuration
  with no benchmark and no benchmark prices: the benchmark table is not looked at (so a
  malformed one raises nothing). When the run returns, its per-event results are those of
  the events for the symbol, one for each in their order, and each is the mean-adjusted
  estimate at the time of its event, with beta 0. On a price table that passes the column
  checks and has unique timestamps, with an event for the symbol (and at least one
  iteration if the bootstrap is on), the run does return.
\<close>

theorem benchmark_fallback_mean_adjusted:
  assumes "benchmark cfg = Some symbol \<or> bench_prices = None \<or> \<not> truthy (benchmark cfg)"
  shows "run_event_study np proc prices events symbol bench_prices (Some cfg) (Some w)
           = run_event_study np proc prices events symbol None
               (Some (cfg\<lparr>benchmark := None\<rparr>)) (Some w)
     \<and> (\<forall>res. run_event_study np proc prices events symbol bench_prices (Some cfg) (Some w) = Inr res
           \<longrightarrow> (\<exists>sym_df. ensure_symbol_frame prices symbol = Inr sym_df
                 \<and> list_all2
                     (\<lambda>row e. res_event_id e = ev_event_id row \<and> res_t0 e = ev_ts_utc row
                        \<and> res_symbol e = symbol \<and> res_beta e = Fin 0
                        \<and> market_model_ar np (to_returns (close_column sym_df)) None
                              (ev_ts_utc row) w
                            = Inr (res_ar e, res_alpha e, Fin 0))
                     (filter (\<lambda>row. ev_symbol row = symbol) events) (agg_per_event res)))
     \<and> (has_price_columns prices \<and> unique_timestamps prices symbol
          \<and> (use_bootstrap cfg \<longrightarrow> 1 \<le> n_boot cfg)
          \<and> filter (\<lambda>row. ev_symbol row = symbol) events \<noteq> []
         \<longrightarrow> (\<exists>res. run_event_study np proc prices events symbol bench_prices (Some cfg) (Some w)
                      = Inr res))"
proof (intro conjI allI impI)
  have fb': "benchmark (cfg\<lparr>benchmark := None\<rparr>) = Some symbol \<or> (None :: price_frame option) = None
             \<or> \<not> truthy (benchmark (cfg\<lparr>benchmark := None\<rparr>))" by simp
  show eq: "run_event_study np proc prices events symbol bench_prices (Some cfg) (Some w)
           = run_event_study np proc prices events symbol None
               (Some (cfg\<lparr>benchmark := None\<rparr>)) (Some w)"
    unfolding run_event_study_fallback[OF assms] run_event_study_fallback[OF fb']
    by (simp add: per_event_loop_benchmark_field cong: sum.case_cong)
  {
    fix res
    assume run: "run_event_study np proc prices events symbol bench_prices (Some cfg) (Some w) = Inr res"
    then obtain sym_df rs where ens: "ensure_symbol_frame prices symbol = Inr sym_df"
      and loop: "per_event_loop np proc cfg w symbol (to_returns (close_column sym_df)) None events = Inr rs"
      and agg: "aggregate np w rs = Inr res"
      unfolding run_event_study_fallback[OF assms] by (auto split: sum.splits if_splits)
    have pe: "agg_per_event res = rs" using aggregate_Inr[OF agg] by simp
    have "list_all2
            (\<lambda>row e. res_event_id e = ev_event_id row \<and> res_t0 e = ev_ts_utc row
               \<and> res_symbol e = symbol \<and> res_beta e = Fin 0
               \<and> market_model_ar np (to_returns (close_column sym_df)) None (ev_ts_utc row) w
                   = Inr (res_ar e, res_alpha e, Fin 0))
            (filter (\<lambda>row. ev_symbol row = symbol) events) rs"
    proof (rule list_all2_mono[OF per_event_loop_results[OF loop]])
      fix row e
      assume er: "event_result np proc cfg w symbol (to_returns (close_column sym_df)) None row = Inr e"
      have mm: "market_model_ar np (to_returns (close_column sym_df)) None (ev_ts_utc row) w
                 = Inr (res_ar e, res_alpha e, res_beta e)"
        and f: "res_event_id e = ev_event_id row" "res_symbol e = symbol" "res_t0 e = ev_ts_utc row"
        using event_result_Inr[OF er] by simp_all
      have b: "res_beta e = Fin 0" using market_model_ar_None_beta[OF mm] .
      show "res_event_id e = ev_event_id row \<and> res_t0 e = ev_ts_utc row
               \<and> res_symbol e = symbol \<and> res_beta e = Fin 0
               \<and> market_model_ar np (to_returns (close_column sym_df)) None (ev_ts_utc row) w
                   = Inr (res_ar e, res_alpha e, Fin 0)"
        using mm f b by simp
    qed
    then show "\<exists>sym_df. ensure_symbol_frame prices symbol = Inr sym_df
                 \<and> list_all2
                     (\<lambda>row e. res_event_id e = ev_event_id row \<and> res_t0 e = ev_ts_utc row
                        \<and> res_symbol e = symbol \<and> res_beta e = Fin 0
                        \<and> market_model_ar np (to_returns (close_column sym_df)) None
                              (ev_ts_utc row) w
                            = Inr (res_ar e, res_alpha e, Fin 0))
                     (filter (\<lambda>row. ev_symbol row = symbol) events) (agg_per_event res)"
      using ens pe by blast
  }
  {
    assume a: "has_price_columns prices \<and> unique_timestamps prices symbol
          \<and> (use_bootstrap cfg \<longrightarrow> 1 \<le> n_boot cfg)
          \<and> filter (\<lambda>row. ev_symbol row = symbol) events \<noteq> []"
    then have wf: "well_formed_inputs prices symbol None (cfg\<lparr>benchmark := None\<rparr>)"
      by (simp add: well_formed_inputs_def)
    have nu: "\<not> uses_benchmark (cfg\<lparr>benchmark := None\<rparr>) symbol None"
      by (simp add: uses_benchmark_def)
    obtain res where "run_event_study np proc prices events symbol None
               (Some (cfg\<lparr>benchmark := None\<rparr>)) (Some w) = Inr res"
      using run_event_study_returns[OF wf, of events np proc w] a nu by blast
    then show "\<exists>res. run_event_study np proc prices events symbol bench_prices (Some cfg) (Some w)
                      = Inr res" using eq by simp
  }
qed

theorem benchmark_fallback_mean_adjusted_witness:
  "(benchmark self_benchmark = Some ''ALT'' \<or> Some headless_prices = None
      \<or> \<not> truthy (benchmark self_benchmark))
   \<and> has_price_columns example_prices \<and> unique_timestamps example_prices ''ALT''
   \<and> 1 \<le> n_boot self_benchmark
   \<and> filter (\<lambda>row. ev_symbol row = ''ALT'') six_events \<noteq> []
   \<and> (\<exists>res. run_event_study example_numpy process_a example_prices six_events ''ALT''
               (Some headless_prices) (Some self_benchmark) (Some small_windows) = Inr res
          \<and> map res_event_id (agg_per_event res) = [''e1'', ''e2'', ''e3'', ''e4'', ''e5'']
          \<and> map res_t0 (agg_per_event res) = [10800, 14400, 18000, 21600, 25200]
          \<and> list_all (\<lambda>e. res_beta e = Fin 0) (agg_per_event res))"
proof -
  have fb: "benchmark self_benchmark = Some ''ALT'' \<or> Some headless_prices = None
      \<or> \<not> truthy (benchmark self_benchmark)" by (simp add: self_benchmark_def)
  have cols: "has_price_columns example_prices"
    by (simp add: has_price_columns_def example_prices_def)
  have uniq: "unique_timestamps example_prices ''ALT''"
    by (simp add: unique_timestamps_def example_prices_def alt_row_def btc_row_def)
  have nb: "1 \<le> n_boot self_benchmark" by (simp add: self_benchmark_def)
  have six: "filter (\<lambda>row. ev_symbol row = ''ALT'') six_events \<noteq> []"
    by (simp add: six_events_def event_at_def)
  note t = benchmark_fallback_mean_adjusted[OF fb, of example_numpy process_a example_prices
             six_events small_windows]
  obtain res where res: "run_event_study example_numpy process_a example_prices six_events ''ALT''
               (Some headless_prices) (Some self_benchmark) (Some small_windows) = Inr res"
    using t[THEN conjunct2, THEN conjunct2] cols uniq nb six by blast
  obtain sym_df where l2: "list_all2
                     (\<lambda>row e. res_event_id e = ev_event_id row \<and> res_t0 e = ev_ts_utc row
                        \<and> res_symbol e = ''ALT'' \<and> res_beta e = Fin 0
                        \<and> market_model_ar example_numpy (to_returns (close_column sym_df)) None
                              (ev_ts_utc row) small_windows
                            = Inr (res_ar e, res_alpha e, Fin 0))
                     (filter (\<lambda>row. ev_symbol row = ''ALT'') six_events) (agg_per_event res)"
    using t[THEN conjunct2, THEN conjunct1] res by blast
  have ids: "map res_event_id (agg_per_event res)
               = map ev_event_id (filter (\<lambda>row. ev_symbol row = ''ALT'') six_events)"
    using l2 by (induction rule: list_all2_induct) simp_all
  have ts: "map res_t0 (agg_per_event res)
               = map ev_ts_utc (filter (\<lambda>row. ev_symbol row = ''ALT'') six_events)"
    using l2 by (induction rule: list_all2_induct) simp_all
  have beta: "list_all (\<lambda>e. res_beta e = Fin 0) (agg_per_event res)"
    using l2 by (induction rule: list_all2_induct) simp_all
  have "map res_event_id (agg_per_event res) = [''e1'', ''e2'', ''e3'', ''e4'', ''e5'']"
    unfolding ids by (simp add: six_events_def event_at_def)
  moreover have "map res_t0 (agg_per_event res) = [10800, 14400, 18000, 21600, 25200]"
    unfolding ts by (simp add: six_events_def event_at_def)
  ultimately have "\<exists>res. run_event_study example_numpy process_a example_prices six_events ''ALT''
               (Some headless_prices) (Some self_benchmark) (Some small_windows) = Inr res
          \<and> map res_event_id (agg_per_event res) = [''e1'', ''e2'', ''e3'', ''e4'', ''e5'']
          \<and> map res_t0 (agg_per_event res) = [10800, 14400, 18000, 21600, 25200]
          \<and> list_all (\<lambda>e. res_beta e = Fin 0) (agg_per_event res)"
    using res beta by (intro exI[of _ res]) simp
  then show ?thesis using fb cols uniq nb six by (intro conjI)
qed

lemma run_event_study_defaults:
  "run_event_study np proc prices events symbol bench_prices None None
     = run_event_study np proc prices events symbol bench_prices
         (Some default_ModelCfg) (Some default_Windows)"
  by (simp add: run_event_study_def)

text \<open>
  Claim C5, as the code has it. With no event for the target symbol the aggregator
  always raises. On well-formed input (price tables that pass the column checks, unique
  timestamps per symbol, at least one iteration when the bootstrap is on) it raises the
  error "No events for" the symbol when no event matches; when an event matches it
  returns a result, unless a benchmark is fitted and the least-squares routine raises,
  whose error it passes on. It does return when no benchmark is in use, and when the
  closes are positive numbers and the routine meets its contract: sparse data, short
  histories and few events are never an error. A price table without the symbol column,
  or without one of the open, high, low and close columns, is a hard failure of its own,
  whatever the events are.
\<close>

theorem run_event_study_hard_failures:
  "(filter (\<lambda>row. ev_symbol row = symbol) events = [] \<longrightarrow>
      (\<exists>e. run_event_study np proc prices events symbol bench_prices (Some cfg) (Some w) = Inl e))
   \<and> (well_formed_inputs prices symbol bench_prices cfg \<longrightarrow>
        (filter (\<lambda>row. ev_symbol row = symbol) events = [] \<longrightarrow>
           run_event_study np proc prices events symbol bench_prices (Some cfg) (Some w)
             = Inl (ValueError (''No events for '' @ symbol)))
        \<and> (filter (\<lambda>row. ev_symbol row = symbol) events \<noteq> [] \<longrightarrow>
             (\<exists>res. run_event_study np proc prices events symbol bench_prices (Some cfg) (Some w)
                      = Inr res)
             \<or> (\<exists>e. uses_benchmark cfg symbol bench_prices \<and> lstsq_error np e
                  \<and> run_event_study np proc prices events symbol bench_prices (Some cfg) (Some w)
                      = Inl e))
        \<and> (filter (\<lambda>row. ev_symbol row = symbol) events \<noteq> []
             \<and> (\<not> uses_benchmark cfg symbol bench_prices
                 \<or> (lstsq_contract np \<and> positive_closes prices symbol
                     \<and> (case (bench_prices, benchmark cfg) of
                           (Some bp, Some b) \<Rightarrow> positive_closes bp b | _ \<Rightarrow> True))) \<longrightarrow>
             (\<exists>res. run_event_study np proc prices events symbol bench_prices (Some cfg) (Some w)
                      = Inr res)))
   \<and> (''symbol'' \<notin> set (pf_columns prices) \<longrightarrow>
        run_event_study np proc prices events symbol bench_prices (Some cfg) (Some w)
          = Inl (ValueError ''Input prices DataFrame must have a symbol column.''))
   \<and> (''symbol'' \<in> set (pf_columns prices)
        \<and> \<not> list_all (\<lambda>c. c \<in> set (pf_columns prices)) [''open'', ''high'', ''low'', ''close''] \<longrightarrow>
        run_event_study np proc prices events symbol bench_prices (Some cfg) (Some w)
          = Inl (ValueError (''Missing columns for '' @ symbol)))"
proof (intro conjI impI)
  show "\<exists>e. run_event_study np proc prices events symbol bench_prices (Some cfg) (Some w) = Inl e"
    if "filter (\<lambda>row. ev_symbol row = symbol) events = []"
    using run_event_study_no_match[OF that] .
  show "run_event_study np proc prices events symbol bench_prices (Some cfg) (Some w)
          = Inl (ValueError ''Input prices DataFrame must have a symbol column.'')"
    if "''symbol'' \<notin> set (pf_columns prices)"
    by (simp add: run_event_study_def ensure_symbol_frame_no_symbol[OF that])
  show "run_event_study np proc prices events symbol bench_prices (Some cfg) (Some w)
          = Inl (ValueError (''Missing columns for '' @ symbol))"
    if "''symbol'' \<in> set (pf_columns prices)
        \<and> \<not> list_all (\<lambda>c. c \<in> set (pf_columns prices)) [''open'', ''high'', ''low'', ''close'']"
    using that by (simp add: run_event_study_def ensure_symbol_frame_missing_column)
next
  assume wf: "well_formed_inputs prices symbol bench_prices cfg"
  note o = run_event_study_outcome[OF wf, of events np proc w]
  show "run_event_study np proc prices events symbol bench_prices (Some cfg) (Some w)
             = Inl (ValueError (''No events for '' @ symbol))"
    if "filter (\<lambda>row. ev_symbol row = symbol) events = []"
    using o that by blast
  show "(\<exists>res. run_event_study np proc prices events symbol bench_prices (Some cfg) (Some w)
                      = Inr res)
             \<or> (\<exists>e. uses_benchmark cfg symbol bench_prices \<and> lstsq_error np e
                  \<and> run_event_study np proc prices events symbol bench_prices (Some cfg) (Some w)
                      = Inl e)"
    if "filter (\<lambda>row. ev_symbol row = symbol) events \<noteq> []"
    using o that by blast
  show "\<exists>res. run_event_study np proc prices events symbol bench_prices (Some cfg) (Some w)
                      = Inr res"
    if "filter (\<lambda>row. ev_symbol row = symbol) events \<noteq> []
             \<and> (\<not> uses_benchmark cfg symbol bench_prices
                 \<or> (lstsq_contract np \<and> positive_closes prices symbol
                     \<and> (case (bench_prices, benchmark cfg) of
                           (Some bp, Some b) \<Rightarrow> positive_closes bp b | _ \<Rightarrow> True)))"
    using run_event_study_returns[OF wf, of events np proc w] that by blast
qed

theorem run_event_study_hard_failures_witness:
  "well_formed_inputs example_prices ''ALT'' (Some example_prices) btc_benchmark
   \<and> uses_benchmark btc_benchmark ''ALT'' (Some example_prices)
   \<and> lstsq_contract example_numpy
   \<and> positive_closes example_prices ''ALT'' \<and> positive_closes example_prices ''BTC''
   \<and> filter (\<lambda>row. ev_symbol row = ''ALT'') six_events \<noteq> []
   \<and> (\<exists>res. run_event_study example_numpy process_a example_prices six_events ''ALT''
               (Some example_prices) (Some btc_benchmark) (Some small_windows) = Inr res)
   \<and> filter (\<lambda>row. ev_symbol row = ''ALT'') other_events = []
   \<and> run_event_study example_numpy process_a example_prices other_events ''ALT''
        (Some example_prices) (Some btc_benchmark) (Some small_windows)
       = Inl (ValueError ''No events for ALT'')
   \<and> run_event_study example_numpy process_a closeless_prices six_events ''ALT''
        (Some example_prices) (Some btc_benchmark) (Some small_windows)
       = Inl (ValueError ''Missing columns for ALT'')"
proof -
  have wf: "well_formed_inputs example_prices ''ALT'' (Some example_prices) btc_benchmark"
    by (simp add: well_formed_inputs_def has_price_columns_def unique_timestamps_def
          example_prices_def btc_benchmark_def alt_row_def btc_row_def)
  have ub: "uses_benchmark btc_benchmark ''ALT'' (Some example_prices)"
    by (simp add: uses_benchmark_def truthy_def btc_benchmark_def)
  have pa: "positive_closes example_prices ''ALT''"
    by (simp add: positive_closes_def example_prices_def alt_row_def btc_row_def)
  have pb: "positive_closes example_prices ''BTC''"
    by (simp add: positive_closes_def example_prices_def alt_row_def btc_row_def)
  have pc: "case (Some example_prices, benchmark btc_benchmark) of
              (Some bp, Some b) \<Rightarrow> positive_closes bp b | _ \<Rightarrow> True"
    using pb by (simp add: btc_benchmark_def)
  have six: "filter (\<lambda>row. ev_symbol row = ''ALT'') six_events \<noteq> []"
    by (simp add: six_events_def event_at_def)
  have other: "filter (\<lambda>row. ev_symbol row = ''ALT'') other_events = []"
    by (simp add: other_events_def event_at_def)
  note t6 = run_event_study_hard_failures[of "''ALT''" six_events example_numpy process_a
              example_prices "Some example_prices" btc_benchmark small_windows]
  note t1 = run_event_study_hard_failures[of "''ALT''" other_events example_numpy process_a
              example_prices "Some example_prices" btc_benchmark small_windows]
  note tc = run_event_study_hard_failures[of "''ALT''" six_events example_numpy process_a
              closeless_prices "Some example_prices" btc_benchmark small_windows]
  have a: "\<exists>res. run_event_study example_numpy process_a example_prices six_events ''ALT''
               (Some example_prices) (Some btc_benchmark) (Some small_windows) = Inr res"
    using t6[THEN conjunct2, THEN conjunct1] wf six example_lstsq_contract pa pc by blast
  have b: "run_event_study example_numpy process_a example_prices other_events ''ALT''
        (Some example_prices) (Some btc_benchmark) (Some small_windows)
       = Inl (ValueError ''No events for ALT'')"
    using t1[THEN conjunct2, THEN conjunct1] wf other by simp
  have mc: "''symbol'' \<in> set (pf_columns closeless_prices)
        \<and> \<not> list_all (\<lambda>c. c \<in> set (pf_columns closeless_prices))
              [''open'', ''high'', ''low'', ''close'']"
    by (simp add: closeless_prices_def)
  have c: "run_event_study example_numpy process_a closeless_prices six_events ''ALT''
        (Some example_prices) (Some btc_benchmark) (Some small_windows)
       = Inl (ValueError ''Missing columns for ALT'')"
    using tc[THEN conjunct2, THEN conjunct2, THEN conjunct2] mc by simp
  show ?thesis using wf ub example_lstsq_contract pa pb six a other b c by blast
qed

text \<open>
  A price table without a symbol column and five events for the symbol: the aggregator
  raises although events match.
\<close>

theorem run_event_study_missing_column:
  "filter (\<lambda>row. ev_symbol row = ''ALT'') six_events \<noteq> []
   \<and> run_event_study example_numpy process_a headless_prices six_events ''ALT'' None
        (Some no_bootstrap) (Some small_windows)
       = Inl (ValueError ''Input prices DataFrame must have a symbol column.'')"
  by (simp add: run_event_study_def ensure_symbol_frame_def headless_prices_def six_events_def
        event_at_def)

text \<open>
  A bootstrap that is switched on with no iteration is a further hard failure: when the
  event has more than three abnormal returns and the estimation window more than ten
  returns beyond them, the percentiles of no sum cannot be unpacked. Nineteen hourly
  returns of 0, an estimation window of fifteen hours and an event window of four.
\<close>

lemma event_result_no_iteration:
  assumes "market_model_ar np sym_ret bench_ret (ev_ts_utc row) windows = Inr (abn, a, b)"
    and "slice_window sym_ret (ev_ts_utc row) (estimation windows) = Inr est"
    and "use_bootstrap cfg" and "n_boot cfg = 0"
    and "3 < length (dropna abn)" and "length (dropna abn) + 10 < length (dropna est)"
  shows "event_result np proc cfg windows symbol sym_ret bench_ret row
           = Inl (TypeError ''cannot unpack non-iterable float object'')"
proof -
  have "bootstrap_car_ci np proc (dropna est) (int (length (dropna abn))) 0 42
          = Inl (TypeError ''cannot unpack non-iterable float object'')"
    using assms(6) by (intro bootstrap_car_ci_no_iteration) simp_all
  then show ?thesis using assms by (simp add: event_result_def Let_def)
qed

lemma per_event_loop_no_iteration:
  "per_event_loop example_numpy process_a
     \<lparr>benchmark = None, use_bootstrap = True, n_boot = 0\<rparr>
     \<lparr>estimation = (- 15, - 1), event = (0, 3)\<rparr> ''ALT'' flat_returns None
     [event_at ''e'' ''ALT'' 16]
   = Inl (TypeError ''cannot unpack non-iterable float object'')"
  by code_simp

end
